theory Spec2Isabelle
  imports Main "HOL-Library.Log_Nat"
begin

section \<open>The pipeline of youtube-moment: catalog client, aggregation, oracle reconciliation\<close>

text \<open>
  The development embeds \<^verbatim>\<open>src/services/youtubeService.ts\<close> and
  \<^verbatim>\<open>src/services/geminiService.ts\<close>. Modelling decisions:
  \<^item> a JavaScript string is a \<^typ>\<open>string\<close> where the code only compares it with ASCII
    patterns (duration texts, messages, the reply of the generative model); the mood
    labels carry pictographs, so they and the queries made from them are lists of UTF-16
    code units;
  \<^item> a JavaScript number is a rational. Where the source adds and multiplies
    (\<^verbatim>\<open>0.8\<close>, the seconds of a duration) the IEEE-754 rounding to the nearest double is
    written out; where it prints a number (\<^verbatim>\<open>formatDuration\<close>) the number is a
    \<^typ>\<open>nat\<close>, which is what the code prints below \<open>2^53\<close>, and the statements about
    printing carry that bound;
  \<^item> a thrown exception is the left summand of a sum type;
  \<^item> the network and the generative model are functions on an explicit world state.
\<close>

subsection \<open>Decimal numbers and padding\<close>

definition is_digit :: "char \<Rightarrow> bool" where
  "is_digit c = (c \<in> set ''0123456789'')"

definition digit_val :: "char \<Rightarrow> nat" where
  "digit_val c = of_char c - 48"

definition digit_char :: "nat \<Rightarrow> char" where
  "digit_char d = ''0123456789'' ! d"

text \<open>\<^verbatim>\<open>parseInt(ds, 10)\<close> on a non-empty string of decimal digits, which is all the
  source ever passes: a captured \<^verbatim>\<open>[0-9]+\<close> group or the literal \<^verbatim>\<open>'0'\<close>.\<close>

definition parseInt_digits :: "string \<Rightarrow> nat" where
  "parseInt_digits ds = foldl (\<lambda>acc c. acc * 10 + digit_val c) 0 ds"

text \<open>\<^verbatim>\<open>Number.prototype.toString\<close> on a natural number.\<close>

fun toString_nat :: "nat \<Rightarrow> string" where
  "toString_nat n = (if n < 10 then [digit_char n] else toString_nat (n div 10) @ [digit_char (n mod 10)])"

declare toString_nat.simps [simp del]

text \<open>\<^verbatim>\<open>s.padStart(targetLength, padChar)\<close> with a one-character pad string.\<close>

definition padStart :: "nat \<Rightarrow> char \<Rightarrow> string \<Rightarrow> string" where
  "padStart targetLength padChar s = replicate (targetLength - length s) padChar @ s"

subsection \<open>The duration pattern\<close>

text \<open>
  \<^verbatim>\<open>/PT(?:([0-9]+)H)?(?:([0-9]+)M)?(?:([0-9]+)S)?/\<close> is not anchored: \<^verbatim>\<open>match\<close> tries every start
  position from the left, and at the first occurrence of \<^verbatim>\<open>PT\<close> the rest of the pattern
  cannot fail, because each group is optional. A group \<^verbatim>\<open>(?:([0-9]+)U)?\<close> takes the longest
  run of digits; it matches when the run is non-empty and the unit letter follows, and
  is skipped (capturing nothing, consuming nothing) otherwise: giving back digits cannot
  help, since the character after a shorter run is a digit and not the unit.
  \<open>find_PT\<close> returns the text after the first \<^verbatim>\<open>PT\<close>; \<open>opt_group\<close> is one optional
  group; the result of \<open>duration_match\<close> holds \<^verbatim>\<open>match[1]\<close>, \<^verbatim>\<open>match[2]\<close>, \<^verbatim>\<open>match[3]\<close>
  (\<open>None\<close> for \<^verbatim>\<open>undefined\<close>), and is \<open>None\<close> when \<^verbatim>\<open>match\<close> returns \<^verbatim>\<open>null\<close>.
\<close>

fun find_PT :: "string \<Rightarrow> string option" where
  "find_PT [] = None"
| "find_PT (c # cs) =
     (if c = CHR ''P'' \<and> cs \<noteq> [] \<and> hd cs = CHR ''T'' then Some (tl cs) else find_PT cs)"

definition opt_group :: "char \<Rightarrow> string \<Rightarrow> string option \<times> string" where
  "opt_group u s =
     (let ds = takeWhile is_digit s; r = dropWhile is_digit s
      in if ds \<noteq> [] \<and> r \<noteq> [] \<and> hd r = u then (Some ds, tl r) else (None, s))"

definition duration_match :: "string \<Rightarrow> (string option \<times> string option \<times> string option) option" where
  "duration_match s =
     (case find_PT s of
        None \<Rightarrow> None
      | Some r0 \<Rightarrow>
          (let (g1, r1) = opt_group CHR ''H'' r0;
               (g2, r2) = opt_group CHR ''M'' r1;
               (g3, r3) = opt_group CHR ''S'' r2
           in Some (g1, g2, g3)))"

text \<open>\<^verbatim>\<open>match[i] || '0'\<close>.\<close>

definition or_zero :: "string option \<Rightarrow> string" where
  "or_zero g = (case g of None \<Rightarrow> ''0'' | Some d \<Rightarrow> if d = [] then ''0'' else d)"

definition formatDuration :: "string \<Rightarrow> string" where
  "formatDuration isoDuration =
     (case duration_match isoDuration of
        None \<Rightarrow> ''0:00''
      | Some (g1, g2, g3) \<Rightarrow>
          (let hours = parseInt_digits (or_zero g1);
               minutes = parseInt_digits (or_zero g2);
               seconds = parseInt_digits (or_zero g3)
           in if hours > 0
              then toString_nat hours @ '':'' @ padStart 2 CHR ''0'' (toString_nat minutes)
                     @ '':'' @ padStart 2 CHR ''0'' (toString_nat seconds)
              else toString_nat minutes @ '':'' @ padStart 2 CHR ''0'' (toString_nat seconds)))"


subsection \<open>Duration band\<close>

text \<open>
  \<^verbatim>\<open>targetMinutes * 0.8 * 60\<close> is computed in IEEE-754 double precision: the literal
  \<^verbatim>\<open>0.8\<close> is the double nearest to \<open>8/10\<close>, and each \<^verbatim>\<open>*\<close> rounds the exact product to
  the nearest double, ties to the even significand. \<open>round_double\<close> is that rounding on
  the rationals (53-bit significand; the exponent range of a double is not modelled, so
  it is exact for magnitudes between \<open>2^-1022\<close> and \<open>2^1023\<close>). \<open>floor_log2 x\<close> is the
  exponent \<open>k\<close> with \<open>2^k \<le> x < 2^(k+1)\<close> of a positive \<open>x\<close>.
\<close>

definition floor_log2 :: "rat \<Rightarrow> int" where
  "floor_log2 x = (if 1 \<le> x then bitlen \<lfloor>x\<rfloor> - 1 else - bitlen (\<lceil>1 / x\<rceil> - 1))"

definition pow2 :: "int \<Rightarrow> rat" where
  "pow2 e = (if 0 \<le> e then of_int (2 ^ nat e) else 1 / of_int (2 ^ nat (- e)))"

definition round_half_even :: "rat \<Rightarrow> int" where
  "round_half_even m =
     (let f = \<lfloor>m\<rfloor>; d = m - of_int f
      in if d < 1 / 2 then f else if 1 / 2 < d then f + 1 else if even f then f else f + 1)"

definition round_double :: "rat \<Rightarrow> rat" where
  "round_double x =
     (if x = 0 then 0
      else (let a = \<bar>x\<bar>; e = floor_log2 a - 52
            in sgn x * (of_int (round_half_even (a * pow2 (- e))) * pow2 e)))"

definition js_times :: "rat \<Rightarrow> rat \<Rightarrow> rat" where
  "js_times a b = round_double (a * b)"

definition js_plus :: "rat \<Rightarrow> rat \<Rightarrow> rat" where
  "js_plus a b = round_double (a + b)"

record duration_range =
  min_range :: int
  max_range :: int

text \<open>\<^verbatim>\<open>getDurationRange\<close>, on an integer number of minutes.\<close>

definition getDurationRange :: "int \<Rightarrow> duration_range" where
  "getDurationRange targetMinutes =
     (let minSeconds = max 60 \<lfloor>js_times (js_times (of_int targetMinutes) (round_double (8 / 10))) 60\<rfloor>;
          maxSeconds = \<lfloor>js_times (js_times (of_int targetMinutes) 2) 60\<rfloor>
      in \<lparr>min_range = minSeconds, max_range = maxSeconds\<rparr>)"

text \<open>\<^verbatim>\<open>minutesToSeconds\<close>.\<close>

definition minutesToSeconds :: "int \<Rightarrow> int" where
  "minutesToSeconds minutes = minutes * 60"

subsection \<open>Catalog client: data\<close>

text \<open>A thrown value: an \<^verbatim>\<open>Error\<close> (or a subclass of it) with its message, or anything else.\<close>

datatype js_exn = Error string | NonError

datatype js_number = NaN | Num rat

record YouTubeVideoData =
  videoId :: string
  title :: string
  channelName :: string
  channelId :: string
  duration :: string
  durationFormatted :: string
  thumbnailUrl :: string
  publishedAt :: string
  description :: string
  viewCount :: "js_number option"

text \<open>
  What the two endpoints answer. A member that may be missing in the JSON is an option.
  \<open>Rejected\<close> stands for a rejected \<^verbatim>\<open>fetch\<close> or a rejected \<^verbatim>\<open>json()\<close> of a 2xx response;
  \<open>NotOk body status statusText\<close> is a response with \<^verbatim>\<open>ok = false\<close>, whose \<^verbatim>\<open>json()\<close>
  rejects (\<open>Unreadable\<close>), gives \<^verbatim>\<open>null\<close> or gives a value with the members read;
  \<open>OkNull\<close> is a 2xx response whose body is \<^verbatim>\<open>null\<close>, \<open>OkItems items\<close> one with a body
  that has members, \<open>items\<close> being its \<^verbatim>\<open>items\<close> member.
\<close>

record YouTubeApiError =
  code :: "int option"
  message :: "string option"

datatype error_body = Unreadable | BodyNull | Body YouTubeApiError

datatype 'a fetched =
  Rejected js_exn
| NotOk error_body int string
| OkNull
| OkItems "'a list option"

text \<open>
  A search hit is read only through \<^verbatim>\<open>item.id.videoId\<close>: \<open>HitNull\<close> is a hit that is
  \<^verbatim>\<open>null\<close> and \<open>HitWithoutId\<close> one that has no \<^verbatim>\<open>id\<close>, on both of which the read throws;
  \<open>Hit v\<close> is one with an \<^verbatim>\<open>id\<close>, \<open>v\<close> being its \<^verbatim>\<open>videoId\<close>.
\<close>

datatype search_item = HitNull | HitWithoutId | Hit "string option"

text \<open>
  An entry of the details response is \<^verbatim>\<open>null\<close> (\<open>None\<close>) or has members; the duration of
  its \<^verbatim>\<open>contentDetails\<close> is \<open>None\<close> when it is missing or not a string, and then the call
  of \<^verbatim>\<open>match\<close> on it throws. The members of a snippet are strings where they are present.
\<close>

record snippet_raw =
  sn_title :: string
  sn_channelTitle :: string
  sn_channelId :: string
  sn_description :: "string option"
  sn_publishedAt :: string
  sn_thumbnails_high_url :: "string option"
  sn_thumbnails_medium_url :: "string option"
  sn_thumbnails_default_url :: "string option"

record contentDetails_raw =
  cd_duration :: "string option"

record video_item =
  vi_id :: string
  vi_snippet :: "snippet_raw option"
  vi_contentDetails :: "contentDetails_raw option"
  vi_statistics_viewCount :: "string option"

record search_request =
  sr_q :: "nat list"
  sr_key :: string
  sr_part :: string
  sr_type :: string
  sr_maxResults :: int
  sr_videoDuration :: string
  sr_order :: string

record details_request =
  dr_id :: string
  dr_key :: string
  dr_part :: string
  dr_fields :: string

subsection \<open>Catalog client: helpers of the language\<close>

text \<open>White space as the pattern class for spaces, \<^verbatim>\<open>trim\<close> and \<^verbatim>\<open>parseInt\<close> see it, up to U+00FF.\<close>

definition is_space :: "char \<Rightarrow> bool" where
  "is_space c = (of_char c \<in> {9, 10, 11, 12, 13, 32, 160 :: nat})"

definition trim :: "string \<Rightarrow> string" where
  "trim s = rev (dropWhile is_space (rev (dropWhile is_space s)))"

definition toString_int :: "int \<Rightarrow> string" where
  "toString_int i = (if i < 0 then CHR ''-'' # toString_nat (nat (- i)) else toString_nat (nat i))"

text \<open>
  The number \<^verbatim>\<open>parseInt(ds, 10)\<close> is for a string of digits: the double nearest to the
  integer written (an engine may replace the digits after the twentieth by zeros before
  it rounds; V8 rounds the integer as written, and so does the model).
\<close>

definition parseInt_number :: "string \<Rightarrow> rat" where
  "parseInt_number ds = round_double (of_nat (parseInt_digits ds))"

text \<open>\<^verbatim>\<open>parseInt(s, 10)\<close> on any string.\<close>

definition parseInt :: "string \<Rightarrow> js_number" where
  "parseInt s =
     (let s1 = dropWhile is_space s;
          neg = (s1 \<noteq> [] \<and> hd s1 = CHR ''-'');
          s2 = (if s1 \<noteq> [] \<and> (hd s1 = CHR ''-'' \<or> hd s1 = CHR ''+'') then tl s1 else s1);
          ds = takeWhile is_digit s2
      in if ds = [] then NaN
         else Num (if neg then - parseInt_number ds else parseInt_number ds))"

text \<open>
  The message of the \<^verbatim>\<open>TypeError\<close> for reading a member of \<^verbatim>\<open>null\<close> or \<^verbatim>\<open>undefined\<close>, in
  the wording of V8.
\<close>

definition sq :: char where "sq = CHR 0x27"

definition cannot_read_message :: "string \<Rightarrow> string \<Rightarrow> string" where
  "cannot_read_message what name =
     ''Cannot read properties of '' @ what @ '' (reading '' @ [sq] @ name @ [sq] @ '')''"

text \<open>
  UTF-16 code units, for the texts that carry characters beyond Latin-1; \<open>utf16\<close> embeds
  a Latin-1 text. White space and word characters as the pattern classes and \<^verbatim>\<open>trim\<close>
  see them on code units.
\<close>

definition utf16 :: "string \<Rightarrow> nat list" where
  "utf16 s = map of_char s"

definition is_space_unit :: "nat \<Rightarrow> bool" where
  "is_space_unit c =
     (c \<in> {9, 10, 11, 12, 13, 32, 160, 0x1680, 0x2028, 0x2029, 0x202F, 0x205F, 0x3000, 0xFEFF}
      \<or> (0x2000 \<le> c \<and> c \<le> 0x200A))"

definition is_word_unit :: "nat \<Rightarrow> bool" where
  "is_word_unit c =
     ((48 \<le> c \<and> c \<le> 57) \<or> (65 \<le> c \<and> c \<le> 90) \<or> c = 95 \<or> (97 \<le> c \<and> c \<le> 122))"

definition trim_units :: "nat list \<Rightarrow> nat list" where
  "trim_units s = rev (dropWhile is_space_unit (rev (dropWhile is_space_unit s)))"

text \<open>Truthiness of a string that may be \<^verbatim>\<open>undefined\<close>.\<close>

definition truthy_str :: "string option \<Rightarrow> bool" where
  "truthy_str x = (case x of None \<Rightarrow> False | Some s \<Rightarrow> s \<noteq> [])"

text \<open>\<^verbatim>\<open>a || b\<close> where \<open>b\<close> is a string.\<close>

definition or_str :: "string option \<Rightarrow> string \<Rightarrow> string" where
  "or_str a b = (case a of None \<Rightarrow> b | Some s \<Rightarrow> if s = [] then b else s)"

fun join :: "'a list list \<Rightarrow> 'a list \<Rightarrow> 'a list" where
  "join [] sep = []"
| "join [x] sep = x"
| "join (x # y # ys) sep = x @ sep @ join (y # ys) sep"

subsection \<open>Catalog client: \<^verbatim>\<open>searchVideos\<close>\<close>

text \<open>
  The outside world is a state \<open>'w\<close>; every call to the network or to the generative
  model reads and changes it. \<^verbatim>\<open>JSON.parse\<close> is a parameter as well.
\<close>

datatype json =
  JNull
| JBool bool
| JNumber rat
| JString string
| JArray "json list"
| JObject "(string \<times> json) list"

datatype gen_result = GenThrows js_exn | GenResponse "string option"

record 'w env =
  youtube_api_key :: string
  http_search :: "search_request \<Rightarrow> 'w \<Rightarrow> search_item fetched \<times> 'w"
  http_videos :: "details_request \<Rightarrow> 'w \<Rightarrow> video_item option fetched \<times> 'w"
  generateContent :: "nat list \<Rightarrow> 'w \<Rightarrow> gen_result \<times> 'w"
  JSON_parse :: "string \<Rightarrow> json option"

definition videoDuration_param :: "int option \<Rightarrow> string" where
  "videoDuration_param maxDurationSeconds =
     (case maxDurationSeconds of
        Some m \<Rightarrow> if m \<le> 240 then ''short'' else if m \<le> 1200 then ''medium'' else ''long''
      | None \<Rightarrow> ''medium'')"

definition searchUrl :: "nat list \<Rightarrow> string \<Rightarrow> int \<Rightarrow> int option \<Rightarrow> search_request" where
  "searchUrl query apiKey maxResults maxDurationSeconds =
     \<lparr>sr_q = query, sr_key = apiKey, sr_part = ''snippet'', sr_type = ''video'',
      sr_maxResults = min (maxResults * 2) 50,
      sr_videoDuration = videoDuration_param maxDurationSeconds,
      sr_order = ''relevance''\<rparr>"

definition detailsUrl :: "string list \<Rightarrow> string \<Rightarrow> details_request" where
  "detailsUrl videoIds apiKey =
     \<lparr>dr_id = join videoIds '','', dr_key = apiKey,
      dr_part = ''snippet,contentDetails,statistics'',
      dr_fields = ''items(id,snippet(title,channelTitle,channelId,description,publishedAt,thumbnails),contentDetails(duration),statistics(viewCount))''\<rparr>"

text \<open>The object pushed for one video of the details response.\<close>

definition video_data :: "video_item \<Rightarrow> snippet_raw \<Rightarrow> string \<Rightarrow> YouTubeVideoData" where
  "video_data video snippet durationText =
     \<lparr>videoId = vi_id video,
      title = sn_title snippet,
      channelName = sn_channelTitle snippet,
      channelId = sn_channelId snippet,
      duration = durationText,
      durationFormatted = formatDuration durationText,
      thumbnailUrl =
        (if truthy_str (sn_thumbnails_high_url snippet) then the (sn_thumbnails_high_url snippet)
         else if truthy_str (sn_thumbnails_medium_url snippet) then the (sn_thumbnails_medium_url snippet)
         else or_str (sn_thumbnails_default_url snippet) ''''),
      publishedAt = sn_publishedAt snippet,
      description = or_str (sn_description snippet) '''',
      viewCount =
        (if truthy_str (vi_statistics_viewCount video)
         then Some (parseInt (the (vi_statistics_viewCount video))) else None)\<rparr>"

text \<open>
  The seconds the filter compares, \<^verbatim>\<open>hours * 3600 + minutes * 60 + seconds\<close> of a match,
  in double precision.
\<close>

definition totalSeconds :: "string option \<times> string option \<times> string option \<Rightarrow> rat" where
  "totalSeconds durationMatch =
     (case durationMatch of (g1, g2, g3) \<Rightarrow>
        (let hours = parseInt_number (or_zero g1);
             minutes = parseInt_number (or_zero g2);
             seconds = parseInt_number (or_zero g3)
         in js_plus (js_plus (js_times hours 3600) (js_times minutes 60)) seconds))"

definition below_min :: "int option \<Rightarrow> rat \<Rightarrow> bool" where
  "below_min minDurationSeconds secs =
     (case minDurationSeconds of None \<Rightarrow> False | Some lo \<Rightarrow> secs < of_int lo)"

definition above_max :: "int option \<Rightarrow> rat \<Rightarrow> bool" where
  "above_max maxDurationSeconds secs =
     (case maxDurationSeconds of None \<Rightarrow> False | Some hi \<Rightarrow> secs > of_int hi)"

text \<open>
  Step 3, the loop over \<^verbatim>\<open>detailsData.items\<close>; the last argument is \<^verbatim>\<open>results\<close>.
  Each \<^verbatim>\<open>continue\<close> is a recursive call with \<^verbatim>\<open>results\<close> unchanged, \<^verbatim>\<open>break\<close> returns,
  and a \<^verbatim>\<open>TypeError\<close> leaves the loop for the \<^verbatim>\<open>catch\<close> of \<^verbatim>\<open>searchVideos\<close>.
\<close>

fun filter_loop ::
  "int \<Rightarrow> int option \<Rightarrow> int option \<Rightarrow> video_item option list \<Rightarrow> YouTubeVideoData list
     \<Rightarrow> js_exn + YouTubeVideoData list" where
  "filter_loop maxResults minDurationSeconds maxDurationSeconds [] results = Inr results"
| "filter_loop maxResults minDurationSeconds maxDurationSeconds (entry # rest) results =
     (case entry of
        None \<Rightarrow> Inl (Error (cannot_read_message ''null'' ''snippet''))
      | Some video \<Rightarrow>
     (case vi_snippet video of
        None \<Rightarrow> filter_loop maxResults minDurationSeconds maxDurationSeconds rest results
      | Some snippet \<Rightarrow>
          (case vi_contentDetails video of
             None \<Rightarrow> filter_loop maxResults minDurationSeconds maxDurationSeconds rest results
           | Some contentDetails \<Rightarrow>
               (case cd_duration contentDetails of
                  None \<Rightarrow> Inl (Error (cannot_read_message ''undefined'' ''match''))
                | Some durationText \<Rightarrow>
               (case duration_match durationText of
                  None \<Rightarrow> filter_loop maxResults minDurationSeconds maxDurationSeconds rest results
                | Some durationMatch \<Rightarrow>
                    if below_min minDurationSeconds (totalSeconds durationMatch)
                    then filter_loop maxResults minDurationSeconds maxDurationSeconds rest results
                    else if above_max maxDurationSeconds (totalSeconds durationMatch)
                    then filter_loop maxResults minDurationSeconds maxDurationSeconds rest results
                    else (let results' = results @ [video_data video snippet durationText]
                          in if int (length results') \<ge> maxResults then Inr results'
                             else filter_loop maxResults minDurationSeconds maxDurationSeconds rest results'))))))"

text \<open>The \<^verbatim>\<open>catch\<close> at the end of \<^verbatim>\<open>searchVideos\<close>.\<close>

definition rethrow_search :: "js_exn \<Rightarrow> js_exn" where
  "rethrow_search e =
     (case e of Error m \<Rightarrow> Error m | NonError \<Rightarrow> Error ''Failed to search videos from YouTube API'')"

definition quota_or_key_message :: string where
  "quota_or_key_message =
     ''YouTube API quota exceeded or API key invalid. Please check your API key and quota.''"

definition search_error :: "error_body \<Rightarrow> int \<Rightarrow> string \<Rightarrow> js_exn" where
  "search_error body status statusText =
     (case body of
        BodyNull \<Rightarrow> Error (cannot_read_message ''null'' ''code'')
      | Unreadable \<Rightarrow>
          if status = 403 then Error quota_or_key_message
          else Error (''YouTube Search API error: ''
                        @ or_str (Some (''HTTP '' @ toString_int status @ '': '' @ statusText)) statusText)
      | Body errorData \<Rightarrow>
          if code errorData = Some 403 then Error quota_or_key_message
          else Error (''YouTube Search API error: '' @ or_str (message errorData) statusText))"

text \<open>\<^verbatim>\<open>searchData.items.map((item) => item.id.videoId)\<close>: the first hit without id throws.\<close>

fun videoIds_of :: "search_item list \<Rightarrow> js_exn + string option list" where
  "videoIds_of [] = Inr []"
| "videoIds_of (HitNull # rest) = Inl (Error (cannot_read_message ''null'' ''id''))"
| "videoIds_of (HitWithoutId # rest) = Inl (Error (cannot_read_message ''undefined'' ''videoId''))"
| "videoIds_of (Hit v # rest) =
     (case videoIds_of rest of Inl e \<Rightarrow> Inl e | Inr vs \<Rightarrow> Inr (v # vs))"

definition searchVideos ::
  "'w env \<Rightarrow> nat list \<Rightarrow> string \<Rightarrow> int \<Rightarrow> int option \<Rightarrow> int option \<Rightarrow> 'w
     \<Rightarrow> (js_exn + YouTubeVideoData list) \<times> 'w" where
  "searchVideos env query apiKey maxResults minDurationSeconds maxDurationSeconds w =
     (case http_search env (searchUrl query apiKey maxResults maxDurationSeconds) w of
        (Rejected e, w1) \<Rightarrow> (Inl (rethrow_search e), w1)
      | (NotOk body status statusText, w1) \<Rightarrow> (Inl (search_error body status statusText), w1)
      | (OkNull, w1) \<Rightarrow> (Inl (Error (cannot_read_message ''null'' ''items'')), w1)
      | (OkItems None, w1) \<Rightarrow> (Inr [], w1)
      | (OkItems (Some items), w1) \<Rightarrow>
          if items = [] then (Inr [], w1)
          else (case videoIds_of items of
                  Inl e \<Rightarrow> (Inl e, w1)
                | Inr ids \<Rightarrow>
                   (let videoIds = map the (filter truthy_str ids)
                    in if videoIds = [] then (Inr [], w1)
                       else (case http_videos env (detailsUrl videoIds apiKey) w1 of
                               (Rejected e, w2) \<Rightarrow> (Inl (rethrow_search e), w2)
                             | (NotOk body status statusText, w2) \<Rightarrow>
                                 (Inl (Error ''Failed to fetch video details from YouTube API''), w2)
                             | (OkNull, w2) \<Rightarrow>
                                 (Inl (Error (cannot_read_message ''null'' ''items'')), w2)
                             | (OkItems None, w2) \<Rightarrow> (Inr [], w2)
                             | (OkItems (Some detailsItems), w2) \<Rightarrow>
                                 (filter_loop maxResults minDurationSeconds maxDurationSeconds
                                    detailsItems [], w2)))))"

subsection \<open>Suggestion pipeline: \<^verbatim>\<open>fetchVideoSuggestion\<close>\<close>

record VideoSuggestion =
  title_sg :: string
  youtubeUrl :: string
  thumbnailUrl_sg :: string
  channelName_sg :: string
  duration_sg :: string
  tags :: json
  promotionalSummary :: "json option"

definition getTimeDescription :: "int \<Rightarrow> string" where
  "getTimeDescription time =
     (if time \<le> 5 then ''around 5 minutes long or less''
      else if time > 5 \<and> time \<le> 15 then ''between 5 and 15 minutes long''
      else if time > 15 \<and> time \<le> 30 then ''between 15 and 30 minutes long''
      else if time > 30 \<and> time \<le> 60 then ''between 30 and 60 minutes long''
      else ''between 1 and 2 hours long'')"

text \<open>\<^verbatim>\<open>s.replace(/C/g, '')\<close> for a one-character class \<open>C\<close>: every match is removed.\<close>

definition replace_all_empty :: "('a \<Rightarrow> bool) \<Rightarrow> 'a list \<Rightarrow> 'a list" where
  "replace_all_empty matches s = filter (\<lambda>c. \<not> matches c) s"

text \<open>
  One element of \<^verbatim>\<open>searchQueries\<close>; the class of the pattern is the complement of the
  word characters and the white space.
\<close>

definition searchQuery :: "nat list \<Rightarrow> nat list" where
  "searchQuery mood =
     (let cleanMood = trim_units (replace_all_empty (\<lambda>c. \<not> (is_word_unit c \<or> is_space_unit c)) mood)
      in if cleanMood = [] then mood else cleanMood)"

text \<open>The loop over \<^verbatim>\<open>searchQueries\<close>; a failed search is caught and skipped.\<close>

fun search_loop ::
  "'w env \<Rightarrow> duration_range \<Rightarrow> nat list list \<Rightarrow> YouTubeVideoData list \<Rightarrow> 'w
     \<Rightarrow> YouTubeVideoData list \<times> 'w" where
  "search_loop env durationRange [] allVideos w = (allVideos, w)"
| "search_loop env durationRange (query # rest) allVideos w =
     (case searchVideos env query (youtube_api_key env) 15
             (Some (min_range durationRange)) (Some (max_range durationRange)) w of
        (Inr videos, w') \<Rightarrow> search_loop env durationRange rest (allVideos @ videos) w'
      | (Inl searchError, w') \<Rightarrow> search_loop env durationRange rest allVideos w')"

text \<open>
  A \<^verbatim>\<open>Map\<close> is the list of its entries in insertion order. \<^verbatim>\<open>set\<close> on a key that is
  present replaces the value and leaves the entry where it is; \<^verbatim>\<open>new Map(entries)\<close> sets
  the entries one after the other.
\<close>

fun map_set :: "('k \<times> 'v) list \<Rightarrow> 'k \<Rightarrow> 'v \<Rightarrow> ('k \<times> 'v) list" where
  "map_set [] k v = [(k, v)]"
| "map_set ((k', v') # m) k v = (if k' = k then (k', v) # m else (k', v') # map_set m k v)"

definition new_Map :: "('k \<times> 'v) list \<Rightarrow> ('k \<times> 'v) list" where
  "new_Map entries = foldl (\<lambda>m (k, v). map_set m k v) [] entries"

definition map_values :: "('k \<times> 'v) list \<Rightarrow> 'v list" where
  "map_values m = map snd m"

definition uniqueVideos :: "YouTubeVideoData list \<Rightarrow> YouTubeVideoData list" where
  "uniqueVideos allVideos = take 20 (map_values (new_Map (map (\<lambda>v. (videoId v, v)) allVideos)))"

definition dq :: char where "dq = CHR 0x22"
definition nl :: char where "nl = CHR 0x0A"

fun videos_lines :: "nat \<Rightarrow> YouTubeVideoData list \<Rightarrow> string list" where
  "videos_lines index [] = []"
| "videos_lines index (video # rest) =
     (toString_nat (index + 1) @ ''. Video ID: '' @ videoId video @ [nl]
        @ ''   Title: '' @ title video @ [nl]
        @ ''   Channel: '' @ channelName video @ [nl]
        @ ''   Duration: '' @ durationFormatted video @ [nl]
        @ ''   Description: '' @ take 200 (description video) @ ''...'')
     # videos_lines (index + 1) rest"

definition selectionPrompt :: "int \<Rightarrow> nat list list \<Rightarrow> YouTubeVideoData list \<Rightarrow> nat list" where
  "selectionPrompt time moods candidates =
     utf16 (''You are '' @ [dq] @ ''Moment'' @ [dq]
       @ '', an expert YouTube concierge. Your purpose is to select the perfect video for a user based on their moods and available time.''
       @ [nl, nl] @ ''User'' @ [sq] @ ''s request:'' @ [nl]
       @ ''- Time Available: A video that is '' @ getTimeDescription time
       @ '', with a duration as close to '' @ toString_int time @ '' minutes as possible.'' @ [nl]
       @ ''- Current Moods: '')
     @ join moods (utf16 '', '')
     @ utf16 ([nl, nl]
       @ ''Here are '' @ toString_nat (length candidates)
       @ '' real YouTube videos that match the duration criteria. Select the ONE best video that:'' @ [nl]
       @ ''1. Best matches the user'' @ [sq] @ ''s current moods'' @ [nl]
       @ ''2. Is a '' @ [dq] @ ''hidden gem'' @ [dq]
       @ '' - high-quality and engaging, not just a generic viral hit'' @ [nl]
       @ ''3. The user likely hasn'' @ [sq] @ ''t seen before'' @ [nl]
       @ ''4. Has a duration closest to '' @ toString_int time @ '' minutes'' @ [nl, nl]
       @ ''Available videos:'' @ [nl] @ join (videos_lines 0 candidates) [nl, nl] @ [nl, nl]
       @ ''Select the best video by its videoId and provide tags and a compelling promotional summary.'')"

text \<open>The messages of the errors thrown in \<^verbatim>\<open>fetchVideoSuggestion\<close>.\<close>

definition no_videos_message :: string where
  "no_videos_message =
     ''No videos found matching your preferences. Try adjusting your time or mood selection.''"

definition invalid_response_message :: string where
  "invalid_response_message = ''Invalid response from Gemini. Please try again.''"

definition no_selection_message :: string where
  "no_selection_message = ''Gemini did not select a valid video. Please try again.''"

text \<open>The message of the \<^verbatim>\<open>TypeError\<close> of a failed conversion to a string (V8).\<close>

definition cannot_convert_message :: string where
  "cannot_convert_message = ''Cannot convert object to primitive value''"

definition api_key_message :: string where
  "api_key_message =
     ''API key error. Please check your .env.local file and ensure both GEMINI_API_KEY and YOUTUBE_API_KEY are set correctly.''"

definition quota_message :: string where
  "quota_message = ''API quota exceeded. Please check your API usage limits.''"

definition network_message :: string where
  "network_message = ''Network error. Please check your internet connection and try again.''"

definition generic_failure_message :: string where
  "generic_failure_message =
     ''Failed to get a suggestion. Please check the browser console for details and try again.''"

text \<open>Truthiness of a JSON value that may be \<^verbatim>\<open>undefined\<close> (\<open>None\<close>).\<close>

fun truthy :: "json option \<Rightarrow> bool" where
  "truthy None = False"
| "truthy (Some JNull) = False"
| "truthy (Some (JBool b)) = b"
| "truthy (Some (JNumber n)) = (n \<noteq> 0)"
| "truthy (Some (JString s)) = (s \<noteq> [])"
| "truthy (Some (JArray xs)) = True"
| "truthy (Some (JObject kvs)) = True"

text \<open>
  Reading one of the members \<^verbatim>\<open>selectedVideoId\<close>, \<^verbatim>\<open>tags\<close>, \<^verbatim>\<open>promotionalSummary\<close> of a
  parsed value that is not \<^verbatim>\<open>null\<close>: an object answers with its own member, anything else
  with \<^verbatim>\<open>undefined\<close>.
\<close>

fun member :: "json \<Rightarrow> string \<Rightarrow> json option" where
  "member (JObject kvs) name = map_of kvs name"
| "member j name = None"

text \<open>
  Whether the conversion of a parsed value to a string, as a template literal does it,
  throws. An object made by \<^verbatim>\<open>JSON.parse\<close> has no callable member; when it has a member
  \<^verbatim>\<open>toString\<close> of its own, the inherited method is hidden, \<^verbatim>\<open>valueOf\<close> gives no primitive
  either, and the conversion throws a \<^verbatim>\<open>TypeError\<close>. An array joins the conversions of
  its elements. Everything else converts.
\<close>

fun conversion_throws :: "json \<Rightarrow> bool" where
  "conversion_throws (JObject kvs) = (map_of kvs ''toString'' \<noteq> None)"
| "conversion_throws (JArray xs) = list_ex conversion_throws xs"
| "conversion_throws j = False"

definition watch_url :: "string \<Rightarrow> string" where
  "watch_url vid = ''https://www.youtube.com/watch?v='' @ vid"

text \<open>
  Lines 132 to 166: validation of the parsed reply, reconciliation, assembly. In the
  fallback branch the selected identity is converted to a string for \<^verbatim>\<open>console.warn\<close>
  before anything is returned.
\<close>

definition assemble :: "int \<Rightarrow> YouTubeVideoData list \<Rightarrow> json \<Rightarrow> js_exn + VideoSuggestion" where
  "assemble time candidates selectionData =
     (if selectionData = JNull
      then Inl (Error (cannot_read_message ''null'' ''selectedVideoId''))
      else if \<not> truthy (member selectionData ''selectedVideoId'')
      then Inl (Error no_selection_message)
      else (case find (\<lambda>v. Some (JString (videoId v)) = member selectionData ''selectedVideoId'') candidates of
              None \<Rightarrow>
                if conversion_throws (the (member selectionData ''selectedVideoId''))
                then Inl (Error cannot_convert_message)
                else
                (case candidates of
                   [] \<Rightarrow> Inl (Error (cannot_read_message ''undefined'' ''title''))
                 | fallbackVideo # others \<Rightarrow>
                     Inr \<lparr>title_sg = title fallbackVideo,
                          youtubeUrl = watch_url (videoId fallbackVideo),
                          thumbnailUrl_sg = thumbnailUrl fallbackVideo,
                          channelName_sg = channelName fallbackVideo,
                          duration_sg = durationFormatted fallbackVideo,
                          tags = (if truthy (member selectionData ''tags'')
                                  then the (member selectionData ''tags'') else JArray []),
                          promotionalSummary =
                            (if truthy (member selectionData ''promotionalSummary'')
                             then member selectionData ''promotionalSummary''
                             else Some (JString (''A perfect '' @ toString_int time
                                                   @ ''-minute video for your current mood.'')))\<rparr>)
            | Some selectedVideo \<Rightarrow>
                Inr \<lparr>title_sg = title selectedVideo,
                     youtubeUrl = watch_url (videoId selectedVideo),
                     thumbnailUrl_sg = thumbnailUrl selectedVideo,
                     channelName_sg = channelName selectedVideo,
                     duration_sg = durationFormatted selectedVideo,
                     tags = (if truthy (member selectionData ''tags'')
                             then the (member selectionData ''tags'') else JArray []),
                     promotionalSummary = member selectionData ''promotionalSummary''\<rparr>))"

text \<open>\<^verbatim>\<open>s.includes(sub)\<close>.\<close>

fun includes_str :: "string \<Rightarrow> string \<Rightarrow> bool" where
  "includes_str [] sub = (sub = [])"
| "includes_str (c # cs) sub = (take (length sub) (c # cs) = sub \<or> includes_str cs sub)"

text \<open>The outer \<^verbatim>\<open>catch\<close>: what is thrown to the caller for a caught \<open>e\<close>.\<close>

definition catch_suggestion :: "js_exn \<Rightarrow> js_exn" where
  "catch_suggestion e =
     (case e of
        Error m \<Rightarrow>
          if includes_str m ''API_KEY'' \<or> includes_str m ''apiKey''
          then Error api_key_message
          else if includes_str m ''quota'' \<or> includes_str m ''Quota''
          then Error quota_message
          else if includes_str m ''network'' \<or> includes_str m ''fetch''
          then Error network_message
          else Error m
      | NonError \<Rightarrow>
          Error generic_failure_message)"

text \<open>Steps 1 and 2 of the \<^verbatim>\<open>try\<close> block, lines 52 to 88: queries, searches, deduplication.\<close>

definition aggregate ::
  "'w env \<Rightarrow> int \<Rightarrow> nat list list \<Rightarrow> 'w \<Rightarrow> (js_exn + YouTubeVideoData list) \<times> 'w" where
  "aggregate env time moods w =
     (let searchQueries = map searchQuery moods;
          durationRange = getDurationRange time
      in case search_loop env durationRange searchQueries [] w of
           (allVideos, w1) \<Rightarrow>
             if length (uniqueVideos allVideos) = 0 then (Inl (Error no_videos_message), w1)
             else (Inr (uniqueVideos allVideos), w1))"

text \<open>The body of the \<^verbatim>\<open>try\<close> block.\<close>

definition suggestion_try ::
  "'w env \<Rightarrow> int \<Rightarrow> nat list list \<Rightarrow> 'w \<Rightarrow> (js_exn + VideoSuggestion) \<times> 'w" where
  "suggestion_try env time moods w =
     (case aggregate env time moods w of
        (Inl e, w1) \<Rightarrow> (Inl e, w1)
      | (Inr candidates, w1) \<Rightarrow>
          (case generateContent env (selectionPrompt time moods candidates) w1 of
             (GenThrows e, w2) \<Rightarrow> (Inl e, w2)
           | (GenResponse None, w2) \<Rightarrow>
               (Inl (Error (cannot_read_message ''undefined'' ''trim'')), w2)
           | (GenResponse (Some jsonText), w2) \<Rightarrow>
               (case JSON_parse env (trim jsonText) of
                  None \<Rightarrow> (Inl (Error invalid_response_message), w2)
                | Some selectionData \<Rightarrow> (assemble time candidates selectionData, w2))))"

definition fetchVideoSuggestion ::
  "'w env \<Rightarrow> int \<Rightarrow> nat list list \<Rightarrow> 'w \<Rightarrow> (js_exn + VideoSuggestion) \<times> 'w" where
  "fetchVideoSuggestion env time moods w =
     (case suggestion_try env time moods w of
        (Inl e, w') \<Rightarrow> (Inl (catch_suggestion e), w')
      | (Inr suggestion, w') \<Rightarrow> (Inr suggestion, w'))"

subsection \<open>Reference notions for the statements\<close>

text \<open>
  A duration text \<^verbatim>\<open>PT#H#M#S\<close>: each component is absent or a non-empty string of decimal
  digits followed by its unit. \<open>component_value\<close> is the number a component denotes, \<open>0\<close>
  when absent. \<open>clock_text\<close> is the display \<^verbatim>\<open>H:MM:SS\<close>, or \<^verbatim>\<open>M:SS\<close> without hours, where
  \<^verbatim>\<open>MM\<close> and \<^verbatim>\<open>SS\<close> have at least two digits.
\<close>

definition wf_digits :: "string \<Rightarrow> bool" where
  "wf_digits ds = (ds \<noteq> [] \<and> list_all is_digit ds)"

definition wf_component :: "string option \<Rightarrow> bool" where
  "wf_component c = (case c of None \<Rightarrow> True | Some ds \<Rightarrow> wf_digits ds \<and> parseInt_digits ds < 2 ^ 53)"

definition render_component :: "string option \<Rightarrow> char \<Rightarrow> string" where
  "render_component c u = (case c of None \<Rightarrow> [] | Some ds \<Rightarrow> ds @ [u])"

definition iso_duration :: "string option \<Rightarrow> string option \<Rightarrow> string option \<Rightarrow> string" where
  "iso_duration h m s =
     ''PT'' @ render_component h CHR ''H'' @ render_component m CHR ''M'' @ render_component s CHR ''S''"

definition component_value :: "string option \<Rightarrow> nat" where
  "component_value c = (case c of None \<Rightarrow> 0 | Some ds \<Rightarrow> parseInt_digits ds)"

definition two_digits :: "nat \<Rightarrow> string" where
  "two_digits n = (if n < 10 then CHR ''0'' # toString_nat n else toString_nat n)"

definition clock_text :: "nat \<Rightarrow> nat \<Rightarrow> nat \<Rightarrow> string" where
  "clock_text h m s =
     (if h > 0 then toString_nat h @ '':'' @ two_digits m @ '':'' @ two_digits s
      else toString_nat m @ '':'' @ two_digits s)"

text \<open>
  A catalog entry passed the duration filter with the given bounds: its duration text
  matched the pattern, and its seconds are not below a supplied lower bound and not
  above a supplied upper bound.
\<close>

definition within_range :: "int option \<Rightarrow> int option \<Rightarrow> YouTubeVideoData \<Rightarrow> bool" where
  "within_range lo hi v =
     (case duration_match (duration v) of
        None \<Rightarrow> False
      | Some m \<Rightarrow> \<not> below_min lo (totalSeconds m) \<and> \<not> above_max hi (totalSeconds m))"

text \<open>
  An environment that records the search requests it receives, in order, next to the
  world of the environment it wraps.
\<close>

definition recording :: "'w env \<Rightarrow> ('w \<times> search_request list) env" where
  "recording env =
     \<lparr>youtube_api_key = youtube_api_key env,
      http_search = (\<lambda>req (w, reqs). case http_search env req w of (r, w') \<Rightarrow> (r, (w', reqs @ [req]))),
      http_videos = (\<lambda>req (w, reqs). case http_videos env req w of (r, w') \<Rightarrow> (r, (w', reqs))),
      generateContent = (\<lambda>p (w, reqs). case generateContent env p w of (r, w') \<Rightarrow> (r, (w', reqs))),
      JSON_parse = JSON_parse env\<rparr>"

text \<open>Sample data for the concrete instances below.\<close>

definition sample_snippet :: snippet_raw where
  "sample_snippet =
     \<lparr>sn_title = ''Rain on a tin roof'', sn_channelTitle = ''Quiet Hours'', sn_channelId = ''UC01'',
      sn_description = Some ''Ten minutes of rain.'', sn_publishedAt = ''2024-01-01T00:00:00Z'',
      sn_thumbnails_high_url = None, sn_thumbnails_medium_url = Some ''https://i.ytimg.com/vi/a/mq.jpg'',
      sn_thumbnails_default_url = None\<rparr>"

definition sample_item :: "string \<Rightarrow> string \<Rightarrow> video_item" where
  "sample_item vid iso8601 =
     \<lparr>vi_id = vid, vi_snippet = Some sample_snippet,
      vi_contentDetails = Some \<lparr>cd_duration = Some iso8601\<rparr>,
      vi_statistics_viewCount = Some ''1200''\<rparr>"

definition sample_env :: "video_item list \<Rightarrow> gen_result \<Rightarrow> (string \<Rightarrow> json option) \<Rightarrow> unit env" where
  "sample_env detailsItems reply parse =
     \<lparr>youtube_api_key = ''key'',
      http_search = (\<lambda>req w. (OkItems (Some (map (\<lambda>i. Hit (Some (vi_id i))) detailsItems)), w)),
      http_videos = (\<lambda>req w. (OkItems (Some (map Some detailsItems)), w)),
      generateContent = (\<lambda>p w. (reply, w)),
      JSON_parse = parse\<rparr>"

text \<open>The distinct elements of a list, in the order of their first occurrences.\<close>

fun first_occurrences :: "'a list \<Rightarrow> 'a list" where
  "first_occurrences [] = []"
| "first_occurrences (x # xs) = x # filter (\<lambda>y. y \<noteq> x) (first_occurrences xs)"

text \<open>The first entry of a list with a given identity.\<close>

definition lookup_video :: "string \<Rightarrow> YouTubeVideoData list \<Rightarrow> YouTubeVideoData option" where
  "lookup_video vid vs = find (\<lambda>v. videoId v = vid) vs"

definition sample_video :: "string \<Rightarrow> string \<Rightarrow> int \<Rightarrow> YouTubeVideoData" where
  "sample_video vid iso8601 views =
     \<lparr>videoId = vid, title = ''Rain on a tin roof'', channelName = ''Quiet Hours'', channelId = ''UC01'',
      duration = iso8601, durationFormatted = formatDuration iso8601,
      thumbnailUrl = ''https://i.ytimg.com/vi/a/mq.jpg'', publishedAt = ''2024-01-01T00:00:00Z'',
      description = ''Ten minutes of rain.'', viewCount = Some (Num (of_int views))\<rparr>"

text \<open>
  The duration of a catalog entry lies in a band; a suggestion shows a catalog entry;
  the errors the pipeline itself can throw to its caller.
\<close>

definition in_band :: "duration_range \<Rightarrow> YouTubeVideoData \<Rightarrow> bool" where
  "in_band r v =
     (case duration_match (duration v) of
        None \<Rightarrow> False
      | Some m \<Rightarrow> of_int (min_range r) \<le> totalSeconds m \<and> totalSeconds m \<le> of_int (max_range r))"


text \<open>
  The seconds a duration text \<^verbatim>\<open>PT#H#M#S\<close> denotes, from the values of its components.
\<close>

definition duration_seconds :: "string option \<Rightarrow> string option \<Rightarrow> string option \<Rightarrow> nat" where
  "duration_seconds h m s = component_value h * 3600 + component_value m * 60 + component_value s"

text \<open>
  The error kinds the specification enumerates, and the kind of an error of the two
  services, read off its message: the services throw plain \<^verbatim>\<open>Error\<close> objects, and the
  message is all that tells them apart. No message stands for \<open>InvalidInput\<close>, which the
  services never raise.
\<close>

datatype error_kind =
  InvalidInput | CatalogUnavailable | CatalogRequestError | NoCandidates
| OracleResponseInvalid | NotFound | InvalidIdentity




text \<open>An environment whose search endpoint is unreachable.\<close>

definition failing_search_env :: "unit env" where
  "failing_search_env =
     (sample_env [] (GenResponse None) (\<lambda>s. None))
       \<lparr>http_search := (\<lambda>req w. (Rejected (Error ''Failed to fetch''), w))\<rparr>"

text \<open>A reply of the generative model that names a video and nothing else, and its parse.\<close>

definition sample_reply_text :: "string \<Rightarrow> string" where
  "sample_reply_text vid =
     ''{'' @ [dq] @ ''selectedVideoId'' @ [dq] @ '':'' @ [dq] @ vid @ [dq] @ ''}''"

definition sample_parse :: "string \<Rightarrow> string \<Rightarrow> json option" where
  "sample_parse vid s =
     (if s = sample_reply_text vid then Some (JObject [(''selectedVideoId'', JString vid)]) else None)"

text \<open>
  The suggestion built from a catalog entry when the selected identity matches no
  candidate: the tags and the summary of the reply where it has them, no tags and a
  summary naming the target otherwise.
\<close>

definition fallback_suggestion :: "int \<Rightarrow> YouTubeVideoData \<Rightarrow> json \<Rightarrow> VideoSuggestion" where
  "fallback_suggestion time v reply =
     \<lparr>title_sg = title v,
      youtubeUrl = watch_url (videoId v),
      thumbnailUrl_sg = thumbnailUrl v,
      channelName_sg = channelName v,
      duration_sg = durationFormatted v,
      tags = (case member reply ''tags'' of
                None \<Rightarrow> JArray []
              | Some t \<Rightarrow> if truthy (Some t) then t else JArray []),
      promotionalSummary =
        (case member reply ''promotionalSummary'' of
           None \<Rightarrow> Some (JString (''A perfect '' @ toString_int time
                                    @ ''-minute video for your current mood.''))
         | Some p \<Rightarrow> if truthy (Some p) then Some p
                     else Some (JString (''A perfect '' @ toString_int time
                                          @ ''-minute video for your current mood.'')))\<rparr>"

definition sample_run_env :: "unit env" where
  "sample_run_env =
     sample_env [sample_item ''v1'' ''PT10M''] (GenResponse (Some (sample_reply_text ''v1'')))
       (sample_parse ''v1'')"


text \<open>The band formula of the specification, in exact arithmetic.\<close>

definition band_formula :: "int \<Rightarrow> duration_range" where
  "band_formula target =
     \<lparr>min_range = max 60 \<lfloor>of_int target * (8 / 10) * 60 :: rat\<rfloor>,
      max_range = \<lfloor>of_int target * 2 * 60 :: rat\<rfloor>\<rparr>"

text \<open>
  Letters and digits; and the query as the specification words it: the label without
  its characters that are neither letters, digits nor spaces, or the label itself when
  nothing is left.
\<close>

definition is_alnum_unit :: "nat \<Rightarrow> bool" where
  "is_alnum_unit c = (c \<in> of_char ` set ''ABCDEFGHIJKLMNOPQRSTUVWXYZabcdefghijklmnopqrstuvwxyz0123456789'')"

definition stripped_query :: "nat list \<Rightarrow> nat list" where
  "stripped_query mood =
     (let kept = filter (\<lambda>c. is_alnum_unit c \<or> c = of_char CHR '' '') mood
      in if kept = [] then mood else kept)"

text \<open>
  The label \<^verbatim>\<open>Need a laugh\<close> of the application: the phrase, a space, and the pictograph
  U+1F602 as its two surrogates.
\<close>

definition need_a_laugh :: "nat list" where
  "need_a_laugh = utf16 ''Need a laugh '' @ [0xD83D, 0xDE02]"


definition empty_selection_env :: "unit env" where
  "empty_selection_env =
     sample_env [sample_item ''v1'' ''PT10M''] (GenResponse (Some (sample_reply_text '''')))
       (sample_parse '''')"

section \<open>Properties\<close>

subsection \<open>Decimal digits\<close>

lemma digit_char_is_digit: "d < 10 \<Longrightarrow> is_digit (digit_char d)"
proof -
  assume "d < 10"
  then have "d \<in> {0,1,2,3,4,5,6,7,8,9}" by auto
  then show ?thesis by (auto simp: is_digit_def digit_char_def)
qed

lemma digit_val_digit_char: "d < 10 \<Longrightarrow> digit_val (digit_char d) = d"
proof -
  assume "d < 10"
  then have "d \<in> {0,1,2,3,4,5,6,7,8,9}" by auto
  then show ?thesis by (auto simp: digit_val_def digit_char_def)
qed

lemma toString_nat_digits: "list_all is_digit (toString_nat n)"
proof (induction n rule: toString_nat.induct)
  case (1 n)
  show ?case
  proof (cases "n < 10")
    case True
    then show ?thesis by (simp add: toString_nat.simps [of n] digit_char_is_digit)
  next
    case False
    with 1 show ?thesis by (simp add: toString_nat.simps [of n] digit_char_is_digit)
  qed
qed

lemma toString_nat_nonempty: "toString_nat n \<noteq> []"
  by (subst toString_nat.simps) simp

lemma toString_nat_wf: "wf_digits (toString_nat n)"
  by (simp add: wf_digits_def toString_nat_digits toString_nat_nonempty)

lemma parseInt_digits_snoc:
  "parseInt_digits (ds @ [c]) = parseInt_digits ds * 10 + digit_val c"
  by (simp add: parseInt_digits_def)

lemma parseInt_toString: "parseInt_digits (toString_nat n) = n"
proof (induction n rule: toString_nat.induct)
  case (1 n)
  show ?case
  proof (cases "n < 10")
    case True
    then show ?thesis
      by (simp add: toString_nat.simps [of n] parseInt_digits_def digit_val_digit_char)
  next
    case False
    with 1 have "parseInt_digits (toString_nat (n div 10)) = n div 10" by simp
    with False show ?thesis
      by (simp add: toString_nat.simps [of n] parseInt_digits_snoc digit_val_digit_char)
  qed
qed

lemma length_toString_small: "n < 10 \<Longrightarrow> length (toString_nat n) = 1"
  by (simp add: toString_nat.simps [of n])

lemma length_toString_large: "\<not> n < 10 \<Longrightarrow> 2 \<le> length (toString_nat n)"
proof -
  assume a: "\<not> n < 10"
  have "1 \<le> length (toString_nat (n div 10))"
    using toString_nat_nonempty [of "n div 10"] by (cases "toString_nat (n div 10)") auto
  with a show ?thesis by (simp add: toString_nat.simps [of n])
qed

lemma padStart_two_digits: "padStart 2 CHR ''0'' (toString_nat n) = two_digits n"
proof (cases "n < 10")
  case True
  then show ?thesis by (simp add: padStart_def two_digits_def length_toString_small)
next
  case False
  then show ?thesis using length_toString_large [of n] by (simp add: padStart_def two_digits_def)
qed

subsection \<open>The duration pattern on well-formed and on arbitrary texts\<close>

lemma find_PT_prefix: "find_PT (''PT'' @ r) = Some r"
  by simp

lemma opt_group_present:
  assumes "wf_digits ds" "\<not> is_digit u"
  shows "opt_group u (ds @ u # r) = (Some ds, r)"
proof -
  from assms have all: "\<forall>c \<in> set ds. is_digit c" by (simp add: wf_digits_def list_all_iff)
  have tw: "takeWhile is_digit (ds @ u # r) = ds"
    using all assms(2) by (simp add: takeWhile_append2)
  have dw: "dropWhile is_digit (ds @ u # r) = u # r"
    using all assms(2) by (simp add: dropWhile_append2)
  from assms(1) have "ds \<noteq> []" by (simp add: wf_digits_def)
  then show ?thesis by (simp add: opt_group_def tw dw)
qed

lemma opt_group_other_unit:
  assumes "wf_digits ds" "\<not> is_digit v" "v \<noteq> u"
  shows "opt_group u (ds @ v # r) = (None, ds @ v # r)"
proof -
  from assms have all: "\<forall>c \<in> set ds. is_digit c" by (simp add: wf_digits_def list_all_iff)
  have dw: "dropWhile is_digit (ds @ v # r) = v # r"
    using all assms(2) by (simp add: dropWhile_append2)
  show ?thesis using assms(3) by (simp add: opt_group_def dw)
qed

lemma opt_group_empty: "opt_group u [] = (None, [])"
  by (simp add: opt_group_def)

lemma unit_not_digit:
  "\<not> is_digit CHR ''H''" "\<not> is_digit CHR ''M''" "\<not> is_digit CHR ''S''"
  by (simp_all add: is_digit_def)

lemma duration_match_iso:
  assumes "h \<noteq> None \<longrightarrow> wf_digits (the h)" "m \<noteq> None \<longrightarrow> wf_digits (the m)"
    "s \<noteq> None \<longrightarrow> wf_digits (the s)"
  shows "duration_match (iso_duration h m s) = Some (h, m, s)"
proof (cases h; cases m; cases s)
qed (use assms in \<open>simp_all add: duration_match_def iso_duration_def render_component_def
      opt_group_present opt_group_other_unit opt_group_empty unit_not_digit\<close>)


lemma formatDuration_iso:
  assumes "wf_component h" "wf_component m" "wf_component s"
  shows "formatDuration (iso_duration h m s)
           = clock_text (component_value h) (component_value m) (component_value s)"
proof -
  have wf: "h \<noteq> None \<longrightarrow> wf_digits (the h)" "m \<noteq> None \<longrightarrow> wf_digits (the m)"
    "s \<noteq> None \<longrightarrow> wf_digits (the s)"
    using assms by (auto simp: wf_component_def)
  have val: "parseInt_digits (or_zero c) = component_value c" if "c \<noteq> None \<longrightarrow> wf_digits (the c)" for c
    using that by (cases c) (auto simp: or_zero_def component_value_def wf_digits_def parseInt_digits_def digit_val_def)
  show ?thesis
    by (simp add: formatDuration_def duration_match_iso [OF wf] val [OF wf(1)] val [OF wf(2)]
        val [OF wf(3)] clock_text_def padStart_two_digits)
qed

lemma find_PT_Some_decomp: "find_PT s = Some r \<Longrightarrow> \<exists>pre. s = pre @ ''PT'' @ r"
proof (induction s)
  case Nil
  then show ?case by simp
next
  case (Cons c cs)
  show ?case
  proof (cases "c = CHR ''P'' \<and> cs \<noteq> [] \<and> hd cs = CHR ''T''")
    case True
    with Cons.prems have "r = tl cs" by simp
    with True have "c # cs = [] @ ''PT'' @ r" by (cases cs) auto
    then show ?thesis by blast
  next
    case False
    with Cons.prems have "find_PT cs = Some r" by auto
    with Cons.IH obtain pre where "cs = pre @ ''PT'' @ r" by blast
    then have "c # cs = (c # pre) @ ''PT'' @ r" by simp
    then show ?thesis by blast
  qed
qed

lemma find_PT_occurs: "find_PT (pre @ ''PT'' @ post) \<noteq> None"
  by (induction pre) auto

lemma find_PT_None_iff: "find_PT s = None \<longleftrightarrow> (\<forall>pre post. s \<noteq> pre @ ''PT'' @ post)"
proof
  assume n: "find_PT s = None"
  show "\<forall>pre post. s \<noteq> pre @ ''PT'' @ post"
  proof (intro allI notI)
    fix pre post
    assume "s = pre @ ''PT'' @ post"
    with find_PT_occurs [of pre post] n show False by simp
  qed
next
  assume a: "\<forall>pre post. s \<noteq> pre @ ''PT'' @ post"
  show "find_PT s = None"
  proof (cases "find_PT s")
    case None
    then show ?thesis .
  next
    case (Some r)
    from find_PT_Some_decomp [OF Some] a show ?thesis by blast
  qed
qed

lemma find_PT_first:
  "(\<forall>p q. pre \<noteq> p @ ''PT'' @ q) \<Longrightarrow> find_PT (pre @ ''PT'' @ rest) = Some rest"
proof (induction pre)
  case Nil
  then show ?case by simp
next
  case (Cons c cs)
  have tail: "\<forall>p q. cs \<noteq> p @ ''PT'' @ q"
  proof (intro allI notI)
    fix p q
    assume "cs = p @ ''PT'' @ q"
    then have "c # cs = (c # p) @ ''PT'' @ q" by simp
    with Cons.prems show False by blast
  qed
  have no_head: "\<not> (c = CHR ''P'' \<and> cs @ ''PT'' @ rest \<noteq> [] \<and> hd (cs @ ''PT'' @ rest) = CHR ''T'')"
  proof
    assume h: "c = CHR ''P'' \<and> cs @ ''PT'' @ rest \<noteq> [] \<and> hd (cs @ ''PT'' @ rest) = CHR ''T''"
    then have "cs \<noteq> []" by (cases cs) auto
    with h have "c # cs = [] @ ''PT'' @ tl cs" by (cases cs) auto
    with Cons.prems show False by blast
  qed
  from no_head have "find_PT ((c # cs) @ ''PT'' @ rest) = find_PT (cs @ ''PT'' @ rest)"
    by auto
  with Cons.IH [OF tail] show ?case by simp
qed

lemma formatDuration_unanchored:
  assumes "\<forall>p q. pre \<noteq> p @ ''PT'' @ q"
  shows "formatDuration (pre @ ''PT'' @ rest) = formatDuration (''PT'' @ rest)"
proof -
  have "duration_match (pre @ ''PT'' @ rest) = duration_match (''PT'' @ rest)"
    unfolding duration_match_def find_PT_first [OF assms] find_PT_prefix ..
  then show ?thesis by (simp only: formatDuration_def)
qed

text \<open>
  A text \<^verbatim>\<open>PT#H#M#S\<close> inside a longer one: nothing before it contains \<^verbatim>\<open>PT\<close>, and what
  follows it does not begin with a digit, so that no group reads on.
\<close>

lemma opt_group_junk: "junk = [] \<or> \<not> is_digit (hd junk) \<Longrightarrow> opt_group u junk = (None, junk)"
  by (cases junk) (auto simp: opt_group_def)

lemma duration_match_iso_junk:
  assumes "junk = [] \<or> \<not> is_digit (hd junk)"
    "h \<noteq> None \<longrightarrow> wf_digits (the h)" "m \<noteq> None \<longrightarrow> wf_digits (the m)"
    "s \<noteq> None \<longrightarrow> wf_digits (the s)"
  shows "duration_match (iso_duration h m s @ junk) = Some (h, m, s)"
proof (cases h; cases m; cases s)
qed (use assms in \<open>simp_all add: duration_match_def iso_duration_def render_component_def
      opt_group_present opt_group_other_unit opt_group_junk unit_not_digit\<close>)

lemma duration_match_embedded:
  assumes "\<forall>p q. pre \<noteq> p @ ''PT'' @ q" "junk = [] \<or> \<not> is_digit (hd junk)"
    "wf_component h" "wf_component m" "wf_component s"
  shows "duration_match (pre @ iso_duration h m s @ junk) = Some (h, m, s)"
proof -
  have wf: "h \<noteq> None \<longrightarrow> wf_digits (the h)" "m \<noteq> None \<longrightarrow> wf_digits (the m)"
    "s \<noteq> None \<longrightarrow> wf_digits (the s)"
    using assms(3-5) by (auto simp: wf_component_def)
  let ?rest = "render_component h CHR ''H'' @ render_component m CHR ''M''
                 @ render_component s CHR ''S'' @ junk"
  have e: "pre @ iso_duration h m s @ junk = pre @ ''PT'' @ ?rest"
    "iso_duration h m s @ junk = ''PT'' @ ?rest"
    by (simp_all add: iso_duration_def)
  have "duration_match (pre @ ''PT'' @ ?rest) = duration_match (''PT'' @ ?rest)"
    unfolding duration_match_def find_PT_first [OF assms(1)] find_PT_prefix ..
  then show ?thesis
    unfolding e [symmetric] by (simp only: duration_match_iso_junk [OF assms(2) wf])
qed

lemma formatDuration_embedded:
  assumes "\<forall>p q. pre \<noteq> p @ ''PT'' @ q" "junk = [] \<or> \<not> is_digit (hd junk)"
    "wf_component h" "wf_component m" "wf_component s"
  shows "formatDuration (pre @ iso_duration h m s @ junk)
           = clock_text (component_value h) (component_value m) (component_value s)"
proof -
  have wf: "h \<noteq> None \<longrightarrow> wf_digits (the h)" "m \<noteq> None \<longrightarrow> wf_digits (the m)"
    "s \<noteq> None \<longrightarrow> wf_digits (the s)"
    using assms(3-5) by (auto simp: wf_component_def)
  have "duration_match (pre @ iso_duration h m s @ junk) = duration_match (iso_duration h m s)"
    by (simp only: duration_match_embedded [OF assms] duration_match_iso [OF wf])
  then have "formatDuration (pre @ iso_duration h m s @ junk) = formatDuration (iso_duration h m s)"
    by (simp only: formatDuration_def)
  then show ?thesis by (simp only: formatDuration_iso [OF assms(3-5)])
qed

lemmas format_eval =
  formatDuration_def duration_match_def opt_group_def is_digit_def or_zero_def
  parseInt_digits_def digit_val_def toString_nat.simps digit_char_def padStart_def

subsection \<open>The duration band in double precision\<close>

lemma floor_numeral_div: "\<lfloor>(numeral a :: rat) / numeral b\<rfloor> = numeral a div numeral b"
  using floor_divide_of_int_eq [of "numeral a" "numeral b", where ?'a = rat] by simp

lemma ceiling_numeral_div: "\<lceil>(numeral a :: rat) / numeral b\<rceil> = - ((- numeral a) div numeral b)"
  using ceiling_divide_eq_div [of "numeral a" "numeral b", where ?'a = rat] by simp

lemma bitlen_numeral: "bitlen (numeral n) = bitlen (numeral n div 2) + 1"
  by (subst compute_bitlen) simp

lemma bitlen_one: "bitlen 1 = 1"
  by (subst compute_bitlen) simp

lemma round_double_pos:
  "0 < x \<Longrightarrow>
   round_double x = of_int (round_half_even (x * pow2 (52 - floor_log2 x))) * pow2 (floor_log2 x - 52)"
  by (simp add: round_double_def Let_def)

lemma round_half_even_if:
  "round_half_even m =
     (if m - of_int \<lfloor>m\<rfloor> < 1 / 2 then \<lfloor>m\<rfloor>
      else if 1 / 2 < m - of_int \<lfloor>m\<rfloor> then \<lfloor>m\<rfloor> + 1
      else if even \<lfloor>m\<rfloor> then \<lfloor>m\<rfloor> else \<lfloor>m\<rfloor> + 1)"
  by (simp add: round_half_even_def Let_def)

lemma getDurationRange_record:
  "getDurationRange t =
     \<lparr>min_range = max 60 \<lfloor>round_double (round_double (of_int t * round_double (8 / 10)) * 60)\<rfloor>,
      max_range = \<lfloor>round_double (round_double (of_int t * 2) * 60)\<rfloor>\<rparr>"
  by (simp add: getDurationRange_def js_times_def Let_def)

lemmas rd_eval =
  round_double_pos round_half_even_if floor_log2_def pow2_def
  floor_numeral_div ceiling_numeral_div bitlen_numeral bitlen_one

text \<open>The literal \<^verbatim>\<open>0.8\<close> is the double \<open>3602879701896397 / 2^52\<close>.\<close>

lemma literal_0_8: "round_double (8 / 10) = 3602879701896397 / 4503599627370496"
  by (simp add: rd_eval)

lemma band_formula_exact:
  "band_formula t = \<lparr>min_range = max 60 (48 * t), max_range = 120 * t\<rparr>"
proof -
  have "of_int t * (8 / 10) * 60 = (of_int (48 * t) :: rat)" by simp
  moreover have "of_int t * 2 * 60 = (of_int (120 * t) :: rat)" by simp
  ultimately show ?thesis unfolding band_formula_def by (simp only: floor_of_int)
qed

lemma range10: "getDurationRange 10 = \<lparr>min_range = 480, max_range = 1200\<rparr>"
  by (simp add: getDurationRange_record literal_0_8 rd_eval)

lemma band_0: "getDurationRange 0 = \<lparr>min_range = 60, max_range = 0\<rparr>"
  by (simp add: getDurationRange_record round_double_def)

lemma band_1: "getDurationRange 1 = \<lparr>min_range = 60, max_range = 120\<rparr>"
  by (simp add: getDurationRange_record literal_0_8 rd_eval)

lemma band_2_19:
  "list_all (\<lambda>t. getDurationRange t = \<lparr>min_range = max 60 (48 * t), max_range = 120 * t\<rparr>) [2..19]"
  by (simp add: upto_rec_numeral) (simp add: getDurationRange_record literal_0_8 rd_eval)

lemma band_20_39:
  "list_all (\<lambda>t. getDurationRange t = \<lparr>min_range = max 60 (48 * t), max_range = 120 * t\<rparr>) [20..39]"
  by (simp add: upto_rec_numeral) (simp add: getDurationRange_record literal_0_8 rd_eval)

lemma band_40_59:
  "list_all (\<lambda>t. getDurationRange t = \<lparr>min_range = max 60 (48 * t), max_range = 120 * t\<rparr>) [40..59]"
  by (simp add: upto_rec_numeral) (simp add: getDurationRange_record literal_0_8 rd_eval)

lemma band_60_79:
  "list_all (\<lambda>t. getDurationRange t = \<lparr>min_range = max 60 (48 * t), max_range = 120 * t\<rparr>) [60..79]"
  by (simp add: upto_rec_numeral) (simp add: getDurationRange_record literal_0_8 rd_eval)

lemma band_80_99:
  "list_all (\<lambda>t. getDurationRange t = \<lparr>min_range = max 60 (48 * t), max_range = 120 * t\<rparr>) [80..99]"
  by (simp add: upto_rec_numeral) (simp add: getDurationRange_record literal_0_8 rd_eval)

lemma band_100_120:
  "list_all (\<lambda>t. getDurationRange t = \<lparr>min_range = max 60 (48 * t), max_range = 120 * t\<rparr>) [100..120]"
  by (simp add: upto_rec_numeral) (simp add: getDurationRange_record literal_0_8 rd_eval)

lemma band_0_120:
  assumes "0 \<le> t" "t \<le> 120"
  shows "getDurationRange t = \<lparr>min_range = max 60 (48 * t), max_range = 120 * t\<rparr>"
proof -
  from assms consider "t = 0" | "t = 1" | "t \<in> set [2..19]" | "t \<in> set [20..39]" | "t \<in> set [40..59]"
    | "t \<in> set [60..79]" | "t \<in> set [80..99]" | "t \<in> set [100..120]"
    unfolding set_upto atLeastAtMost_iff by linarith
  then show ?thesis
  proof cases
    case 1
    then show ?thesis by (simp add: band_0)
  next
    case 2
    then show ?thesis by (simp add: band_1)
  next
    case 3
    with band_2_19 show ?thesis by (simp only: list_all_iff)
  next
    case 4
    with band_20_39 show ?thesis by (simp only: list_all_iff)
  next
    case 5
    with band_40_59 show ?thesis by (simp only: list_all_iff)
  next
    case 6
    with band_60_79 show ?thesis by (simp only: list_all_iff)
  next
    case 7
    with band_80_99 show ?thesis by (simp only: list_all_iff)
  next
    case 8
    with band_100_120 show ?thesis by (simp only: list_all_iff)
  qed
qed

text \<open>
  C3, as stated, fails in its second example: a target of 5 minutes gives a lower bound
  of 240 seconds, not 60; the clamp at 60 only acts on targets of 0 and 1 minute.
\<close>

theorem getDurationRange_5_counterexample:
  "getDurationRange 5 = \<lparr>min_range = 240, max_range = 600\<rparr>
   \<and> getDurationRange 5 \<noteq> \<lparr>min_range = 60, max_range = 600\<rparr>"
  using band_0_120 [of 5] by simp

text \<open>
  C3, amended. For every target \<open>getDurationRange\<close> returns the maximum of 60 and the
  floor of \<^verbatim>\<open>target * 0.8 * 60\<close>, and the floor of \<^verbatim>\<open>target * 2 * 60\<close>, both products in
  double precision; for every integer target from 0 to 120 these are the values of the
  formula in exact arithmetic, \<open>max 60 (48 * target)\<close> and \<open>120 * target\<close>. A target of 15
  gives 720 and 1800, a target of 5 gives 240 and 600.
\<close>

theorem getDurationRange_formula:
  "getDurationRange t =
     \<lparr>min_range = max 60 \<lfloor>js_times (js_times (of_int t) (round_double (8 / 10))) 60\<rfloor>,
      max_range = \<lfloor>js_times (js_times (of_int t) 2) 60\<rfloor>\<rparr>
   \<and> (0 \<le> t \<and> t \<le> 120 \<longrightarrow>
        getDurationRange t = band_formula t
        \<and> band_formula t = \<lparr>min_range = max 60 (48 * t), max_range = 120 * t\<rparr>)
   \<and> getDurationRange 15 = \<lparr>min_range = 720, max_range = 1800\<rparr>
   \<and> getDurationRange 5 = \<lparr>min_range = 240, max_range = 600\<rparr>"
proof (intro conjI impI)
  show "getDurationRange t =
     \<lparr>min_range = max 60 \<lfloor>js_times (js_times (of_int t) (round_double (8 / 10))) 60\<rfloor>,
      max_range = \<lfloor>js_times (js_times (of_int t) 2) 60\<rfloor>\<rparr>"
    by (simp add: getDurationRange_def Let_def)
next
  assume "0 \<le> t \<and> t \<le> 120"
  then show "getDurationRange t = band_formula t"
    by (simp add: band_0_120 band_formula_exact)
next
  show "band_formula t = \<lparr>min_range = max 60 (48 * t), max_range = 120 * t\<rparr>"
    by (rule band_formula_exact)
next
  show "getDurationRange 15 = \<lparr>min_range = 720, max_range = 1800\<rparr>"
    using band_0_120 [of 15] by simp
next
  show "getDurationRange 5 = \<lparr>min_range = 240, max_range = 600\<rparr>"
    using band_0_120 [of 5] by simp
qed

theorem getDurationRange_formula_witness:
  "(0::int) \<le> 30 \<and> (30::int) \<le> 120
   \<and> getDurationRange 30 = band_formula 30
   \<and> band_formula 30 = \<lparr>min_range = 1440, max_range = 3600\<rparr>"
proof -
  have h: "(0::int) \<le> 30 \<and> (30::int) \<le> 120" by simp
  from getDurationRange_formula [of 30] h
  have "getDurationRange 30 = band_formula 30
        \<and> band_formula 30 = \<lparr>min_range = max 60 (48 * 30), max_range = 120 * 30\<rparr>"
    by blast
  with h show ?thesis by simp
qed

subsection \<open>Double precision is exact on the integers below \<open>2^53\<close>\<close>

lemma round_half_even_of_int: "round_half_even (of_int z) = z"
  by (simp add: round_half_even_def)

lemma pow2_cancel: "pow2 (- e) * pow2 e = 1"
proof (cases "e = 0")
  case True
  then show ?thesis by (simp add: pow2_def)
next
  case False
  then show ?thesis by (cases "0 \<le> e") (simp_all add: pow2_def)
qed

lemma pow2_nonneg: "0 \<le> j \<Longrightarrow> pow2 j = of_int (2 ^ nat j)"
  by (simp add: pow2_def)

lemma round_double_of_nat:
  assumes "n < 2 ^ 53"
  shows "round_double (of_nat n) = of_nat n"
proof (cases "n = 0")
  case True
  then show ?thesis by (simp add: round_double_def)
next
  case False
  let ?x = "of_nat n :: rat"
  from False have pos: "1 \<le> ?x" "0 < ?x" "?x \<noteq> 0" by simp_all
  have fl: "floor_log2 ?x = bitlen (int n) - 1"
    using pos(1) by (simp add: floor_log2_def)
  have "bitlen (int n) \<le> 53"
    using assms by (simp add: bitlen_le_iff_power)
  then have fl': "floor_log2 ?x \<le> 52" by (simp add: fl)
  define k where "k = 52 - floor_log2 ?x"
  from fl' have k: "0 \<le> k" by (simp add: k_def)
  have ek: "floor_log2 ?x - 52 = - k" "- (floor_log2 ?x - 52) = k" by (simp_all add: k_def)
  have "?x * pow2 k = of_int (int n * 2 ^ nat k)"
    by (simp add: pow2_nonneg [OF k])
  then have r: "round_half_even (?x * pow2 k) = int n * 2 ^ nat k"
    by (simp only: round_half_even_of_int)
  have "round_double ?x
          = of_int (round_half_even (?x * pow2 (52 - floor_log2 ?x))) * pow2 (floor_log2 ?x - 52)"
    by (rule round_double_pos [OF pos(2)])
  also have "\<dots> = of_int (round_half_even (?x * pow2 k)) * pow2 (- k)"
    by (simp only: k_def minus_diff_eq)
  also have "\<dots> = ?x * (pow2 k * pow2 (- k))"
    unfolding r by (simp add: pow2_nonneg [OF k])
  also have "\<dots> = ?x" using pow2_cancel [of "- k"] by simp
  finally show ?thesis .
qed

lemma js_times_exact:
  "a * b < 2 ^ 53 \<Longrightarrow> js_times (of_nat a) (of_nat b) = of_nat (a * b)"
  using round_double_of_nat [of "a * b"] by (simp add: js_times_def)

lemma js_plus_exact:
  "a + b < 2 ^ 53 \<Longrightarrow> js_plus (of_nat a) (of_nat b) = of_nat (a + b)"
  using round_double_of_nat [of "a + b"] by (simp add: js_plus_def)

lemma parseInt_number_exact:
  "parseInt_digits ds < 2 ^ 53 \<Longrightarrow> parseInt_number ds = of_nat (parseInt_digits ds)"
  by (simp add: parseInt_number_def round_double_of_nat)

lemma or_zero_value:
  "c \<noteq> None \<longrightarrow> wf_digits (the c) \<Longrightarrow> parseInt_digits (or_zero c) = component_value c"
  by (cases c)
     (auto simp: or_zero_def component_value_def wf_digits_def parseInt_digits_def digit_val_def)

lemma totalSeconds_exact:
  assumes "wf_component h" "wf_component m" "wf_component s" "duration_seconds h m s < 2 ^ 53"
  shows "totalSeconds (h, m, s) = of_nat (duration_seconds h m s)"
proof -
  let ?H = "component_value h" and ?M = "component_value m" and ?S = "component_value s"
  have wf: "h \<noteq> None \<longrightarrow> wf_digits (the h)" "m \<noteq> None \<longrightarrow> wf_digits (the m)"
    "s \<noteq> None \<longrightarrow> wf_digits (the s)"
    using assms(1-3) by (auto simp: wf_component_def)
  from assms(4) have b: "?H * 3600 + ?M * 60 + ?S < 2 ^ 53" by (simp add: duration_seconds_def)
  then have bs: "?H < 2 ^ 53" "?M < 2 ^ 53" "?S < 2 ^ 53" "?H * 3600 < 2 ^ 53" "?M * 60 < 2 ^ 53"
    "?H * 3600 + ?M * 60 < 2 ^ 53"
    by simp_all
  have p: "parseInt_number (or_zero h) = of_nat ?H" "parseInt_number (or_zero m) = of_nat ?M"
    "parseInt_number (or_zero s) = of_nat ?S"
    using bs(1-3) by (simp_all add: parseInt_number_exact or_zero_value wf)
  have t1: "js_times (of_nat ?H) 3600 = of_nat (?H * 3600)"
    using js_times_exact [of ?H 3600] bs(4) by simp
  have t2: "js_times (of_nat ?M) 60 = of_nat (?M * 60)"
    using js_times_exact [of ?M 60] bs(5) by simp
  have t3: "js_plus (of_nat (?H * 3600)) (of_nat (?M * 60)) = of_nat (?H * 3600 + ?M * 60)"
    using bs(6) by (rule js_plus_exact)
  have t4: "js_plus (of_nat (?H * 3600 + ?M * 60)) (of_nat ?S) = of_nat (?H * 3600 + ?M * 60 + ?S)"
    using b by (rule js_plus_exact)
  show ?thesis
    by (simp only: totalSeconds_def prod.case Let_def p t1 t2 t3 t4 duration_seconds_def)
qed

subsection \<open>Duration formatting\<close>



lemma split_at_colon:
  assumes "CHR '':'' \<notin> set a" "CHR '':'' \<notin> set b" "a @ CHR '':'' # r = b @ CHR '':'' # r'"
  shows "a = b \<and> r = r'"
proof -
  have na: "\<forall>c \<in> set a. c \<noteq> CHR '':''" and nb: "\<forall>c \<in> set b. c \<noteq> CHR '':''"
    using assms(1,2) by auto
  have "takeWhile (\<lambda>c. c \<noteq> CHR '':'') (a @ CHR '':'' # r) = a"
    using na by (simp add: takeWhile_append2)
  moreover have "takeWhile (\<lambda>c. c \<noteq> CHR '':'') (b @ CHR '':'' # r') = b"
    using nb by (simp add: takeWhile_append2)
  ultimately have "a = b" using assms(3) by simp
  with assms(3) show ?thesis by simp
qed

lemma toString_nat_no_colon: "CHR '':'' \<notin> set (toString_nat n)"
proof
  assume "CHR '':'' \<in> set (toString_nat n)"
  moreover have "\<forall>c \<in> set (toString_nat n). is_digit c"
    using toString_nat_digits [of n] by (simp only: list_all_iff)
  ultimately have "is_digit CHR '':''" by blast
  then show False by (simp add: is_digit_def)
qed

lemma toString_nat_zero_iff: "toString_nat n = ''0'' \<longleftrightarrow> n = 0"
proof
  assume "toString_nat n = ''0''"
  then have "parseInt_digits (toString_nat n) = parseInt_digits ''0''" by simp
  then have "n = parseInt_digits ''0''" by (simp only: parseInt_toString)
  then show "n = 0" by (simp add: parseInt_digits_def digit_val_def)
next
  assume "n = 0"
  then show "toString_nat n = ''0''" by (simp add: toString_nat.simps [of 0] digit_char_def)
qed

lemma two_digits_zero_iff: "two_digits n = ''00'' \<longleftrightarrow> n = 0"
proof
  assume a: "two_digits n = ''00''"
  show "n = 0"
  proof (cases "n < 10")
    case True
    with a show ?thesis by (simp add: two_digits_def toString_nat_zero_iff)
  next
    case False
    with a have "parseInt_digits (toString_nat n) = parseInt_digits ''00''"
      by (simp add: two_digits_def)
    then have "n = parseInt_digits ''00''" by (simp only: parseInt_toString)
    then show ?thesis by (simp add: parseInt_digits_def digit_val_def)
  qed
next
  assume "n = 0"
  then show "two_digits n = ''00''"
    by (simp add: two_digits_def toString_nat.simps [of 0] digit_char_def)
qed

lemma length_two_digits: "2 \<le> length (two_digits n)"
  using length_toString_large [of n] by (simp add: two_digits_def length_toString_small)

lemma clock_text_zero_iff: "clock_text H M S = ''0:00'' \<longleftrightarrow> H = 0 \<and> M = 0 \<and> S = 0"
proof (cases "0 < H")
  case True
  have "7 \<le> length (clock_text H M S)"
    using True length_two_digits [of M] length_two_digits [of S] toString_nat_nonempty [of H]
    by (cases "toString_nat H") (simp_all add: clock_text_def)
  then have "clock_text H M S \<noteq> ''0:00''" by auto
  with True show ?thesis by simp
next
  case False
  then have c: "clock_text H M S = toString_nat M @ CHR '':'' # two_digits S"
    by (simp add: clock_text_def)
  show ?thesis
  proof
    assume "clock_text H M S = ''0:00''"
    then have "toString_nat M @ CHR '':'' # two_digits S = ''0'' @ CHR '':'' # ''00''"
      by (simp add: c)
    then have "toString_nat M = ''0'' \<and> two_digits S = ''00''"
      by (rule split_at_colon [rotated 2]) (simp_all add: toString_nat_no_colon)
    with False show "H = 0 \<and> M = 0 \<and> S = 0"
      by (simp add: toString_nat_zero_iff two_digits_zero_iff)
  next
    assume "H = 0 \<and> M = 0 \<and> S = 0"
    then show "clock_text H M S = ''0:00''"
      by (simp add: clock_text_def two_digits_def toString_nat.simps [of 0] digit_char_def)
  qed
qed

text \<open>
  C10 as stated fails in its second half: a text can contain \<^verbatim>\<open>PT\<close> and still be formatted
  as \<^verbatim>\<open>0:00\<close>, because every group of the pattern is optional.
\<close>

theorem formatDuration_PT_counterexample:
  "''xxPTyy'' = ''xx'' @ ''PT'' @ ''yy'' \<and> formatDuration ''xxPTyy'' = ''0:00''"
  by (simp add: format_eval)

text \<open>
  C10, amended. \<open>formatDuration\<close> does not normalise and does not anchor. A text is read
  at its first \<^verbatim>\<open>PT\<close>, whatever comes before it; when \<^verbatim>\<open>PT#H#M#S\<close> stands there (followed by
  nothing or by something that does not begin with a digit), the display shows the
  values of the components as they are, whether below 60 or not: \<^verbatim>\<open>PT90S\<close> gives \<^verbatim>\<open>0:90\<close>,
  \<^verbatim>\<open>PT5M90S\<close> gives \<^verbatim>\<open>5:90\<close>, \<^verbatim>\<open>PT1H90M5S\<close> gives \<^verbatim>\<open>1:90:05\<close>. A value of 10 or more is
  printed with all its digits, and the display is \<^verbatim>\<open>0:00\<close> exactly when every component
  is zero or absent; so a text with \<^verbatim>\<open>PT\<close> and no component after it still gives \<^verbatim>\<open>0:00\<close>.
\<close>

theorem formatDuration_verbatim_unanchored:
  "(wf_component h \<and> wf_component m \<and> wf_component s
      \<and> (\<forall>p q. pre \<noteq> p @ ''PT'' @ q) \<and> (junk = [] \<or> \<not> is_digit (hd junk)) \<longrightarrow>
      formatDuration (pre @ iso_duration h m s @ junk)
        = clock_text (component_value h) (component_value m) (component_value s)
      \<and> (formatDuration (pre @ iso_duration h m s @ junk) = ''0:00''
           \<longleftrightarrow> component_value h = 0 \<and> component_value m = 0 \<and> component_value s = 0))
   \<and> ((\<forall>p q. pre \<noteq> p @ ''PT'' @ q) \<longrightarrow>
        formatDuration (pre @ ''PT'' @ rest) = formatDuration (''PT'' @ rest))
   \<and> (10 \<le> n \<longrightarrow> two_digits n = toString_nat n \<and> parseInt_digits (toString_nat n) = n)
   \<and> formatDuration ''PT90S'' = ''0:90''
   \<and> formatDuration ''PT5M90S'' = ''5:90''
   \<and> formatDuration ''PT1H90M5S'' = ''1:90:05''
   \<and> formatDuration ''xxPT5Myy'' = ''5:00''"
proof (intro conjI impI)
  assume a: "wf_component h \<and> wf_component m \<and> wf_component s
      \<and> (\<forall>p q. pre \<noteq> p @ ''PT'' @ q) \<and> (junk = [] \<or> \<not> is_digit (hd junk))"
  then show e: "formatDuration (pre @ iso_duration h m s @ junk)
        = clock_text (component_value h) (component_value m) (component_value s)"
    by (simp add: formatDuration_embedded)
  show "formatDuration (pre @ iso_duration h m s @ junk) = ''0:00''
           \<longleftrightarrow> component_value h = 0 \<and> component_value m = 0 \<and> component_value s = 0"
    unfolding e by (rule clock_text_zero_iff)
next
  assume "\<forall>p q. pre \<noteq> p @ ''PT'' @ q"
  then show "formatDuration (pre @ ''PT'' @ rest) = formatDuration (''PT'' @ rest)"
    by (rule formatDuration_unanchored)
next
  assume "10 \<le> n"
  then show "two_digits n = toString_nat n" by (simp add: two_digits_def)
next
  show "parseInt_digits (toString_nat n) = n" by (rule parseInt_toString)
next
  show "formatDuration ''PT90S'' = ''0:90''" by (simp add: format_eval)
next
  show "formatDuration ''PT5M90S'' = ''5:90''" by (simp add: format_eval)
next
  show "formatDuration ''PT1H90M5S'' = ''1:90:05''" by (simp add: format_eval)
next
  show "formatDuration ''xxPT5Myy'' = ''5:00''" by (simp add: format_eval)
qed

theorem formatDuration_verbatim_unanchored_witness:
  "wf_component (Some ''1'') \<and> wf_component (Some ''90'') \<and> wf_component (Some ''075'')
   \<and> (\<forall>p q. ''P1D '' \<noteq> p @ ''PT'' @ q) \<and> \<not> is_digit (hd ''.5'')
   \<and> formatDuration ''P1D PT1H90M075S.5'' = ''1:90:75''
   \<and> formatDuration ''P1D PT3H'' = formatDuration ''PT3H''
   \<and> (10 :: nat) \<le> 75 \<and> two_digits 75 = toString_nat 75"
proof -
  have wf: "wf_component (Some ''1'')" "wf_component (Some ''90'')" "wf_component (Some ''075'')"
    by (simp_all add: wf_component_def wf_digits_def is_digit_def parseInt_digits_def digit_val_def)
  have "find_PT ''P1D '' = None" by simp
  then have no: "\<forall>p q. ''P1D '' \<noteq> p @ ''PT'' @ q"
    by (rule find_PT_None_iff [THEN iffD1])
  have j: "\<not> is_digit (hd ''.5'')" by (simp add: is_digit_def)
  have ten: "(10 :: nat) \<le> 75" by simp
  have iso: "''P1D '' @ iso_duration (Some ''1'') (Some ''90'') (Some ''075'') @ ''.5''
               = ''P1D PT1H90M075S.5''"
    by (simp add: iso_duration_def render_component_def)
  have clock: "clock_text (component_value (Some ''1'')) (component_value (Some ''90''))
                 (component_value (Some ''075'')) = ''1:90:75''"
    by (simp add: clock_text_def component_value_def two_digits_def parseInt_digits_def
        digit_val_def toString_nat.simps digit_char_def)
  note T = formatDuration_verbatim_unanchored [where h = "Some ''1''" and m = "Some ''90''"
      and s = "Some ''075''" and pre = "''P1D ''" and junk = "''.5''" and rest = "''3H''" and n = 75]
  have f: "formatDuration (''P1D '' @ iso_duration (Some ''1'') (Some ''90'') (Some ''075'') @ ''.5'')
        = clock_text (component_value (Some ''1'')) (component_value (Some ''90''))
                 (component_value (Some ''075''))"
    using T wf no j by blast
  have f': "formatDuration ''P1D PT1H90M075S.5'' = ''1:90:75''"
    using f unfolding iso clock .
  have u: "formatDuration (''P1D '' @ ''PT'' @ ''3H'') = formatDuration (''PT'' @ ''3H'')"
    using T no by blast
  then have u': "formatDuration ''P1D PT3H'' = formatDuration ''PT3H''" by simp
  have t: "two_digits 75 = toString_nat 75" using T ten by blast
  show ?thesis by (intro conjI) (rule wf no j f' u' ten t)+
qed

subsection \<open>The duration filter of \<open>searchVideos\<close>\<close>

lemma video_data_duration [simp]: "duration (video_data video snippet d) = d"
  by (simp add: video_data_def)

lemma video_data_formatted [simp]: "durationFormatted (video_data video snippet d) = formatDuration d"
  by (simp add: video_data_def)

lemma filter_loop_invariant:
  assumes "filter_loop n lo hi items results = Inr vs"
    and "\<forall>v \<in> set results. P v"
    and step: "\<And>video snippet d m. duration_match d = Some m \<Longrightarrow>
                 \<not> below_min lo (totalSeconds m) \<Longrightarrow> \<not> above_max hi (totalSeconds m) \<Longrightarrow>
                 P (video_data video snippet d)"
  shows "\<forall>v \<in> set vs. P v"
  using assms(1,2)
proof (induction items arbitrary: results)
  case Nil
  then show ?case by simp
next
  case (Cons entry rest)
  from Cons.prems(1) obtain video where entry: "entry = Some video"
    by (cases entry) auto
  show ?case
  proof (cases "vi_snippet video")
    case None
    with Cons entry show ?thesis by simp
  next
    case sn: (Some snippet)
    show ?thesis
    proof (cases "vi_contentDetails video")
      case None
      with sn Cons entry show ?thesis by simp
    next
      case cd: (Some contentDetails)
      from Cons.prems(1) entry sn cd obtain d where d: "cd_duration contentDetails = Some d"
        by (cases "cd_duration contentDetails") auto
      show ?thesis
      proof (cases "duration_match d")
        case None
        with sn cd d Cons entry show ?thesis by simp
      next
        case m: (Some durationMatch)
        let ?new = "video_data video snippet d"
        show ?thesis
        proof (cases "below_min lo (totalSeconds durationMatch) \<or> above_max hi (totalSeconds durationMatch)")
          case True
          with Cons.prems(1) entry sn cd d m
          have "filter_loop n lo hi rest results = Inr vs" by (simp split: if_splits)
          from Cons.IH [OF this Cons.prems(2)] show ?thesis .
        next
          case False
          then have "P ?new" using step [OF m] by simp
          with Cons.prems(2) have ext: "\<forall>v \<in> set (results @ [?new]). P v" by simp
          show ?thesis
          proof (cases "int (length (results @ [?new])) \<ge> n")
            case True
            with Cons.prems(1) entry sn cd d m False have "vs = results @ [?new]"
              by (simp add: Let_def)
            with ext show ?thesis by simp
          next
            case stop: False
            with Cons.prems(1) entry sn cd d m False
            have "filter_loop n lo hi rest (results @ [?new]) = Inr vs" by (simp add: Let_def)
            from Cons.IH [OF this ext] show ?thesis .
          qed
        qed
      qed
    qed
  qed
qed

lemma filter_loop_within:
  assumes "filter_loop n lo hi items [] = Inr vs"
  shows "\<forall>v \<in> set vs. within_range lo hi v"
  by (rule filter_loop_invariant [OF assms]) (simp_all add: within_range_def)

lemma filter_loop_formatted:
  assumes "filter_loop n lo hi items [] = Inr vs"
  shows "\<forall>v \<in> set vs. durationFormatted v = formatDuration (duration v)"
  by (rule filter_loop_invariant [OF assms]) simp_all





lemma searchVideos_Inr_cases:
  assumes "searchVideos env query apiKey n lo hi w = (Inr vs, w')"
  shows "vs = [] \<or> (\<exists>detailsItems. filter_loop n lo hi detailsItems [] = Inr vs)"
  using assms unfolding searchVideos_def
  by (auto split: prod.splits fetched.splits option.splits if_splits sum.splits simp: Let_def)

lemma searchVideos_within:
  assumes "searchVideos env query apiKey n lo hi w = (Inr vs, w')"
  shows "\<forall>v \<in> set vs. within_range lo hi v"
  using searchVideos_Inr_cases [OF assms] filter_loop_within by auto

lemma searchVideos_formatted:
  assumes "searchVideos env query apiKey n lo hi w = (Inr vs, w')"
  shows "\<forall>v \<in> set vs. durationFormatted v = formatDuration (duration v)"
  using searchVideos_Inr_cases [OF assms] filter_loop_formatted by auto


text \<open>What the filter says about a well-formed duration text, in the seconds it denotes.\<close>

lemma within_range_seconds:
  assumes "within_range lo hi v" "duration v = pre @ iso_duration h m s @ junk"
    "\<forall>p q. pre \<noteq> p @ ''PT'' @ q" "junk = [] \<or> \<not> is_digit (hd junk)"
    "wf_component h" "wf_component m" "wf_component s" "duration_seconds h m s < 2 ^ 53"
  shows "(\<forall>l. lo = Some l \<longrightarrow> l \<le> int (duration_seconds h m s))
         \<and> (\<forall>u. hi = Some u \<longrightarrow> int (duration_seconds h m s) \<le> u)"
proof -
  have dm: "duration_match (duration v) = Some (h, m, s)"
    unfolding assms(2) using assms(3-7) by (rule duration_match_embedded)
  have ts: "totalSeconds (h, m, s) = of_nat (duration_seconds h m s)"
    using assms(5-8) by (rule totalSeconds_exact)
  from assms(1) have "\<not> below_min lo (of_nat (duration_seconds h m s))"
    and "\<not> above_max hi (of_nat (duration_seconds h m s))"
    by (simp_all add: within_range_def dm ts)
  then show ?thesis
    by (auto simp: below_min_def above_max_def split: option.splits)
qed

lemma searchVideos_recording:
  "searchVideos (recording env) query apiKey n lo hi (w, reqs)
     = (case searchVideos env query apiKey n lo hi w of
          (r, w') \<Rightarrow> (r, (w', reqs @ [searchUrl query apiKey n hi])))"
  unfolding searchVideos_def recording_def
  by (simp add: Let_def split: prod.splits fetched.splits option.splits sum.splits)


text \<open>Evaluation of the sample data.\<close>

lemma seconds_of_10_minutes: "totalSeconds (None, Some ''10'', None) = 600"
  using totalSeconds_exact [of None "Some ''10''" None]
  by (simp add: wf_component_def wf_digits_def duration_seconds_def component_value_def
      is_digit_def parseInt_digits_def digit_val_def)

lemma seconds_of_12_minutes: "totalSeconds (None, Some ''12'', None) = 720"
  using totalSeconds_exact [of None "Some ''12''" None]
  by (simp add: wf_component_def wf_digits_def duration_seconds_def component_value_def
      is_digit_def parseInt_digits_def digit_val_def)

lemma parseInt_1200: "parseInt ''1200'' = Num 1200"
proof -
  have "parseInt_number ''1200'' = of_nat (parseInt_digits ''1200'')"
    by (rule parseInt_number_exact) (simp add: parseInt_digits_def digit_val_def)
  then have "parseInt_number ''1200'' = 1200"
    by (simp add: parseInt_digits_def digit_val_def)
  then show ?thesis by (simp add: parseInt_def is_space_def is_digit_def)
qed

lemma sample_video_data:
  "video_data (sample_item vid durationText) sample_snippet durationText
     = sample_video vid durationText 1200"
  by (simp add: video_data_def sample_item_def sample_snippet_def sample_video_def
      truthy_str_def or_str_def parseInt_1200)

lemmas sample_eval =
  sample_env_def searchVideos_def searchUrl_def detailsUrl_def truthy_str_def
  below_min_def above_max_def duration_match_def opt_group_def is_digit_def
  seconds_of_10_minutes seconds_of_12_minutes

lemma sample_item_sel:
  "vi_id (sample_item vid d) = vid"
  "vi_snippet (sample_item vid d) = Some sample_snippet"
  "vi_contentDetails (sample_item vid d) = Some \<lparr>cd_duration = Some d\<rparr>"
  by (simp_all add: sample_item_def)




subsection \<open>Deduplication through a \<open>Map\<close>\<close>

lemma map_set_keys:
  "map fst (map_set m k v) = (if k \<in> set (map fst m) then map fst m else map fst m @ [k])"
proof (induction m)
  case Nil
  then show ?case by simp
next
  case (Cons e m)
  obtain k' v' where e: "e = (k', v')" by (cases e)
  show ?case
  proof (cases "k' = k")
    case True
    then show ?thesis by (simp add: e)
  next
    case False
    with Cons show ?thesis by (simp add: e)
  qed
qed

lemma map_set_lookup:
  "map_of (map_set m k v) = (map_of m)(k \<mapsto> v)"
proof (induction m)
  case Nil
  then show ?case by simp
next
  case (Cons e m)
  obtain k' v' where e: "e = (k', v')" by (cases e)
  show ?case
  proof (cases "k' = k")
    case True
    then show ?thesis by (simp add: e fun_eq_iff)
  next
    case False
    with Cons show ?thesis by (simp add: e fun_eq_iff)
  qed
qed

lemma foldl_map_set_keys:
  "map fst (foldl (\<lambda>m (k, v). map_set m k v) m es)
     = map fst m @ filter (\<lambda>k. k \<notin> set (map fst m)) (first_occurrences (map fst es))"
proof (induction es arbitrary: m)
  case Nil
  then show ?case by simp
next
  case (Cons e es)
  obtain k v where e: "e = (k, v)" by (cases e)
  show ?case
  proof (cases "k \<in> set (map fst m)")
    case True
    then have "filter (\<lambda>x. x \<notin> set (map fst m)) (filter (\<lambda>y. y \<noteq> k) xs)
                 = filter (\<lambda>x. x \<notin> set (map fst m)) xs" for xs
      by (induction xs) auto
    with True show ?thesis by (simp add: e Cons.IH map_set_keys)
  next
    case False
    have "filter (\<lambda>x. x \<notin> set (map fst m) \<and> x \<noteq> k) xs
            = filter (\<lambda>x. x \<notin> set (map fst m)) (filter (\<lambda>y. y \<noteq> k) xs)" for xs
      by (induction xs) auto
    with False show ?thesis by (simp add: e Cons.IH map_set_keys)
  qed
qed

lemma foldl_map_set_lookup:
  "map_of (foldl (\<lambda>m (k, v). map_set m k v) m es) = map_of m ++ map_of (rev es)"
proof (induction es arbitrary: m)
  case Nil
  then show ?case by simp
next
  case (Cons e es)
  obtain k v where e: "e = (k, v)" by (cases e)
  have "map_of (foldl (\<lambda>m (k, v). map_set m k v) m (e # es))
          = map_of (map_set m k v) ++ map_of (rev es)"
    by (simp add: e Cons.IH)
  also have "\<dots> = (map_of m)(k \<mapsto> v) ++ map_of (rev es)"
    by (simp only: map_set_lookup)
  also have "\<dots> = map_of m ++ map_of (rev (e # es))"
    by (simp add: e map_add_def fun_eq_iff split: option.splits)
  finally show ?case .
qed

lemma distinct_first_occurrences: "distinct (first_occurrences xs)"
  by (induction xs) auto

lemma set_first_occurrences: "set (first_occurrences xs) = set xs"
  by (induction xs) auto

lemma new_Map_keys: "map fst (new_Map es) = first_occurrences (map fst es)"
  by (simp add: new_Map_def foldl_map_set_keys)

lemma new_Map_lookup: "map_of (new_Map es) = map_of (rev es)"
  by (simp add: new_Map_def foldl_map_set_lookup)

lemma find_SomeD: "find P xs = Some x \<Longrightarrow> x \<in> set xs \<and> P x"
  by (induction xs) (auto split: if_splits)

lemma map_of_keyed: "map_of (map (\<lambda>v. (f v, v)) xs) k = find (\<lambda>x. f x = k) xs"
  by (induction xs) auto

lemma uniqueVideos_ids:
  "map videoId (uniqueVideos vs) = take 20 (first_occurrences (map videoId vs))"
proof -
  let ?M = "new_Map (map (\<lambda>v. (videoId v, v)) vs)"
  have keyed: "\<forall>e \<in> set ?M. fst e = videoId (snd e)"
  proof
    fix e assume e: "e \<in> set ?M"
    have d: "distinct (map fst ?M)" by (simp add: new_Map_keys distinct_first_occurrences)
    from e d have "map_of ?M (fst e) = Some (snd e)" by simp
    then have "find (\<lambda>x. videoId x = fst e) (rev vs) = Some (snd e)"
      by (simp add: new_Map_lookup rev_map map_of_keyed)
    then show "fst e = videoId (snd e)" by (auto dest: find_SomeD)
  qed
  then have h: "map videoId (map snd ?M) = map fst ?M" by (induction ?M) auto
  have "map videoId (uniqueVideos vs) = take 20 (map videoId (map snd ?M))"
    by (simp only: uniqueVideos_def map_values_def take_map)
  also have "\<dots> = take 20 (map fst ?M)" by (simp only: h)
  also have "\<dots> = take 20 (first_occurrences (map videoId vs))"
    by (simp add: new_Map_keys comp_def)
  finally show ?thesis .
qed

lemma uniqueVideos_last_wins:
  assumes "u \<in> set (uniqueVideos vs)"
  shows "lookup_video (videoId u) (rev vs) = Some u"
proof -
  let ?M = "new_Map (map (\<lambda>v. (videoId v, v)) vs)"
  from assms have "u \<in> set (map snd ?M)"
    by (auto simp: uniqueVideos_def map_values_def dest: in_set_takeD)
  then obtain k where e: "(k, u) \<in> set ?M" by auto
  have d: "distinct (map fst ?M)" by (simp add: new_Map_keys distinct_first_occurrences)
  from e d have "map_of ?M k = Some u" by simp
  then have f: "find (\<lambda>x. videoId x = k) (rev vs) = Some u"
    by (simp add: new_Map_lookup rev_map map_of_keyed)
  then have "videoId u = k" by (auto dest: find_SomeD)
  with f show ?thesis by (simp add: lookup_video_def)
qed

lemma uniqueVideos_subset: "set (uniqueVideos vs) \<subseteq> set vs"
proof
  fix u assume "u \<in> set (uniqueVideos vs)"
  then have "find (\<lambda>x. videoId x = videoId u) (rev vs) = Some u"
    using uniqueVideos_last_wins by (simp add: lookup_video_def)
  then have "u \<in> set (rev vs)" by (auto dest: find_SomeD)
  then show "u \<in> set vs" by simp
qed

lemma uniqueVideos_empty_iff: "uniqueVideos vs = [] \<longleftrightarrow> vs = []"
proof -
  have "map videoId (uniqueVideos vs) = [] \<longleftrightarrow> vs = []"
    unfolding uniqueVideos_ids by (cases vs) auto
  then show ?thesis by simp
qed

text \<open>
  C2, as stated, fails: \<^verbatim>\<open>new Map(entries)\<close> keeps the place of the first entry with a key
  and the value of the last one. Below, identity \<open>a\<close> comes first with 1200 views and
  later with 1201, and the candidate set holds the later data.
\<close>

theorem dedupe_first_occurrence_counterexample:
  "lookup_video ''a'' [sample_video ''a'' ''PT10M'' 1200, sample_video ''b'' ''PT12M'' 7,
                      sample_video ''a'' ''PT10M'' 1201]
     = Some (sample_video ''a'' ''PT10M'' 1200)
   \<and> lookup_video ''a'' (uniqueVideos [sample_video ''a'' ''PT10M'' 1200, sample_video ''b'' ''PT12M'' 7,
                                      sample_video ''a'' ''PT10M'' 1201])
     = Some (sample_video ''a'' ''PT10M'' 1201)
   \<and> sample_video ''a'' ''PT10M'' 1201 \<noteq> sample_video ''a'' ''PT10M'' 1200"
  by (simp add: lookup_video_def uniqueVideos_def new_Map_def map_values_def sample_video_def)

text \<open>
  C2, amended. The candidate set lists the identities of the merged results in the order
  of their first occurrences, cut after 20; so no identity occurs twice, there are at
  most 20 entries, and an identity is present exactly when it is among the first 20
  distinct ones. Each entry carries the data of the last occurrence of its identity in
  merge order.
\<close>

theorem uniqueVideos_dedupe:
  "distinct (map videoId (uniqueVideos allVideos))
   \<and> length (uniqueVideos allVideos) \<le> 20
   \<and> map videoId (uniqueVideos allVideos) = take 20 (first_occurrences (map videoId allVideos))
   \<and> (\<forall>u \<in> set (uniqueVideos allVideos). lookup_video (videoId u) (rev allVideos) = Some u)"
proof (intro conjI ballI)
  show "distinct (map videoId (uniqueVideos allVideos))"
    by (simp only: uniqueVideos_ids distinct_take distinct_first_occurrences)
next
  show "length (uniqueVideos allVideos) \<le> 20"
    by (simp add: uniqueVideos_def)
next
  show "map videoId (uniqueVideos allVideos) = take 20 (first_occurrences (map videoId allVideos))"
    by (rule uniqueVideos_ids)
next
  fix u assume "u \<in> set (uniqueVideos allVideos)"
  then show "lookup_video (videoId u) (rev allVideos) = Some u"
    by (rule uniqueVideos_last_wins)
qed

theorem uniqueVideos_dedupe_witness:
  "sample_video ''a'' ''PT10M'' 1201
     \<in> set (uniqueVideos [sample_video ''a'' ''PT10M'' 1200, sample_video ''b'' ''PT12M'' 7,
                          sample_video ''a'' ''PT10M'' 1201])
   \<and> lookup_video ''a'' (rev [sample_video ''a'' ''PT10M'' 1200, sample_video ''b'' ''PT12M'' 7,
                              sample_video ''a'' ''PT10M'' 1201])
       = Some (sample_video ''a'' ''PT10M'' 1201)
   \<and> map videoId (uniqueVideos [sample_video ''a'' ''PT10M'' 1200, sample_video ''b'' ''PT12M'' 7,
                                 sample_video ''a'' ''PT10M'' 1201]) = [''a'', ''b'']"
proof -
  let ?L = "[sample_video ''a'' ''PT10M'' 1200, sample_video ''b'' ''PT12M'' 7,
             sample_video ''a'' ''PT10M'' 1201]"
  have mem: "sample_video ''a'' ''PT10M'' 1201 \<in> set (uniqueVideos ?L)"
    by (simp add: uniqueVideos_def new_Map_def map_values_def sample_video_def)
  have vid: "videoId (sample_video ''a'' ''PT10M'' 1201) = ''a''"
    by (simp add: sample_video_def)
  have fo: "take 20 (first_occurrences (map videoId ?L)) = [''a'', ''b'']"
    by (simp add: sample_video_def)
  from uniqueVideos_dedupe [of ?L] mem
  have "lookup_video (videoId (sample_video ''a'' ''PT10M'' 1201)) (rev ?L)
          = Some (sample_video ''a'' ''PT10M'' 1201)"
    and "map videoId (uniqueVideos ?L) = take 20 (first_occurrences (map videoId ?L))"
    by blast+
  with mem show ?thesis unfolding vid fo by blast
qed

subsection \<open>The aggregation stage\<close>

lemma search_loop_invariant:
  assumes "\<forall>v \<in> set acc. P v"
    and "\<And>q w vs w'. searchVideos env q (youtube_api_key env) 15
              (Some (min_range r)) (Some (max_range r)) w = (Inr vs, w') \<Longrightarrow> \<forall>v \<in> set vs. P v"
  shows "\<forall>v \<in> set (fst (search_loop env r qs acc w)). P v"
  using assms(1)
proof (induction qs arbitrary: acc w)
  case Nil
  then show ?case by simp
next
  case (Cons q qs)
  obtain res w1 where s: "searchVideos env q (youtube_api_key env) 15
              (Some (min_range r)) (Some (max_range r)) w = (res, w1)"
    by (cases "searchVideos env q (youtube_api_key env) 15
              (Some (min_range r)) (Some (max_range r)) w")
  show ?case
  proof (cases res)
    case (Inl e)
    with s Cons show ?thesis by simp
  next
    case (Inr vs)
    with s assms(2) have "\<forall>v \<in> set vs. P v" by blast
    with Cons.prems have "\<forall>v \<in> set (acc @ vs). P v" by auto
    from Cons.IH [OF this] s Inr show ?thesis by simp
  qed
qed

lemma search_loop_keeps: "set acc \<subseteq> set (fst (search_loop env r qs acc w))"
proof (induction qs arbitrary: acc w)
  case Nil
  then show ?case by simp
next
  case (Cons q qs)
  have "set acc \<subseteq> set (fst (search_loop env r qs (acc @ vs) w1))" for vs w1
    using Cons.IH [of "acc @ vs" w1] by auto
  with Cons.IH show ?case by (auto split: prod.splits sum.splits)
qed

lemma search_loop_skips_failure:
  "searchVideos env q (youtube_api_key env) 15 (Some (min_range r)) (Some (max_range r)) w
     = (Inl e, w1) \<Longrightarrow>
   search_loop env r (q # qs) acc w = search_loop env r qs acc w1"
  by simp

lemma within_range_in_band:
  "within_range (Some (min_range r)) (Some (max_range r)) v \<longleftrightarrow> in_band r v"
  by (auto simp: within_range_def in_band_def below_min_def above_max_def split: option.splits)

lemma search_loop_in_band:
  "\<forall>v \<in> set (fst (search_loop env r qs [] w)).
      in_band r v \<and> durationFormatted v = formatDuration (duration v)"
proof (rule search_loop_invariant)
  show "\<forall>v \<in> set []. in_band r v \<and> durationFormatted v = formatDuration (duration v)" by simp
next
  fix q w vs w'
  assume s: "searchVideos env q (youtube_api_key env) 15
              (Some (min_range r)) (Some (max_range r)) w = (Inr vs, w')"
  from searchVideos_within [OF s] searchVideos_formatted [OF s]
  show "\<forall>v \<in> set vs. in_band r v \<and> durationFormatted v = formatDuration (duration v)"
    by (simp add: within_range_in_band)
qed

lemma in_band_seconds:
  assumes "in_band r v" "duration v = pre @ iso_duration h m s @ junk"
    "\<forall>p q. pre \<noteq> p @ ''PT'' @ q" "junk = [] \<or> \<not> is_digit (hd junk)"
    "wf_component h" "wf_component m" "wf_component s" "duration_seconds h m s < 2 ^ 53"
  shows "min_range r \<le> int (duration_seconds h m s)"
    and "int (duration_seconds h m s) \<le> max_range r"
proof -
  from assms(1) have "within_range (Some (min_range r)) (Some (max_range r)) v"
    by (simp only: within_range_in_band)
  from within_range_seconds [OF this assms(2-8)]
  show "min_range r \<le> int (duration_seconds h m s)"
    and "int (duration_seconds h m s) \<le> max_range r"
    by simp_all
qed

lemma getDurationRange_band: "0 \<le> t \<Longrightarrow> t \<le> 120 \<Longrightarrow> getDurationRange t = band_formula t"
  by (simp add: band_0_120 band_formula_exact)

lemma aggregate_cases:
  "aggregate env time moods w =
     (let allVideos = fst (search_loop env (getDurationRange time) (map searchQuery moods) [] w);
          w1 = snd (search_loop env (getDurationRange time) (map searchQuery moods) [] w)
      in if uniqueVideos allVideos = [] then (Inl (Error no_videos_message), w1)
         else (Inr (uniqueVideos allVideos), w1))"
  by (simp add: aggregate_def Let_def split: prod.splits)

lemma aggregate_Inr:
  assumes "aggregate env time moods w = (Inr candidates, w1)"
  shows "candidates \<noteq> []"
    and "\<forall>v \<in> set candidates. in_band (getDurationRange time) v
            \<and> durationFormatted v = formatDuration (duration v)"
proof -
  let ?all = "fst (search_loop env (getDurationRange time) (map searchQuery moods) [] w)"
  from assms have c: "candidates = uniqueVideos ?all" and ne: "uniqueVideos ?all \<noteq> []"
    by (auto simp: aggregate_cases Let_def split: if_splits)
  from c ne show "candidates \<noteq> []" by simp
  from c uniqueVideos_subset [of ?all] search_loop_in_band [of env "getDurationRange time"]
  show "\<forall>v \<in> set candidates. in_band (getDurationRange time) v
            \<and> durationFormatted v = formatDuration (duration v)"
    by blast
qed

subsection \<open>What the outer \<open>catch\<close> does to the errors of the \<open>try\<close> block\<close>

lemma catch_no_videos: "catch_suggestion (Error no_videos_message) = Error no_videos_message"
  by (simp add: catch_suggestion_def no_videos_message_def)

lemma catch_invalid: "catch_suggestion (Error invalid_response_message) = Error invalid_response_message"
  by (simp add: catch_suggestion_def invalid_response_message_def)

lemma catch_no_selection: "catch_suggestion (Error no_selection_message) = Error no_selection_message"
  by (simp add: catch_suggestion_def no_selection_message_def)

lemma catch_cannot_read_null:
  "catch_suggestion (Error (cannot_read_message ''null'' ''selectedVideoId''))
     = Error (cannot_read_message ''null'' ''selectedVideoId'')"
  by (simp add: catch_suggestion_def cannot_read_message_def sq_def)

lemma catch_cannot_convert:
  "catch_suggestion (Error cannot_convert_message) = Error cannot_convert_message"
  by (simp add: catch_suggestion_def cannot_convert_message_def)


text \<open>
  C8. The aggregation stage fails exactly when the deduplicated candidate set is empty
  after all searches, and then with the no-candidates error, which is also what the
  caller of the pipeline receives; it has no other failure. With a non-empty set it
  returns the set. A search that fails adds nothing and the loop goes on with the next
  query.
\<close>

theorem aggregate_no_candidates:
  "(fst (aggregate env time moods w) = Inl (Error no_videos_message)
      \<longleftrightarrow> uniqueVideos (fst (search_loop env (getDurationRange time) (map searchQuery moods) [] w)) = [])
   \<and> (\<forall>e. fst (aggregate env time moods w) = Inl e \<longrightarrow> e = Error no_videos_message)
   \<and> (uniqueVideos (fst (search_loop env (getDurationRange time) (map searchQuery moods) [] w)) \<noteq> []
        \<longrightarrow> fst (aggregate env time moods w)
              = Inr (uniqueVideos (fst (search_loop env (getDurationRange time) (map searchQuery moods) [] w))))
   \<and> (searchVideos env q (youtube_api_key env) 15 (Some (min_range r)) (Some (max_range r)) w0
         = (Inl e', w1)
        \<longrightarrow> search_loop env r (q # qs) acc w0 = search_loop env r qs acc w1)
   \<and> (uniqueVideos (fst (search_loop env (getDurationRange time) (map searchQuery moods) [] w)) = []
        \<longrightarrow> fst (fetchVideoSuggestion env time moods w) = Inl (Error no_videos_message))"
proof (intro conjI allI impI)
  show "fst (aggregate env time moods w) = Inl (Error no_videos_message)
      \<longleftrightarrow> uniqueVideos (fst (search_loop env (getDurationRange time) (map searchQuery moods) [] w)) = []"
    by (simp add: aggregate_cases Let_def)
next
  fix e assume "fst (aggregate env time moods w) = Inl e"
  then show "e = Error no_videos_message"
    by (simp add: aggregate_cases Let_def split: if_splits)
next
  assume "uniqueVideos (fst (search_loop env (getDurationRange time) (map searchQuery moods) [] w)) \<noteq> []"
  then show "fst (aggregate env time moods w)
              = Inr (uniqueVideos (fst (search_loop env (getDurationRange time) (map searchQuery moods) [] w)))"
    by (simp add: aggregate_cases Let_def)
next
  assume "searchVideos env q (youtube_api_key env) 15 (Some (min_range r)) (Some (max_range r)) w0
         = (Inl e', w1)"
  then show "search_loop env r (q # qs) acc w0 = search_loop env r qs acc w1"
    by (rule search_loop_skips_failure)
next
  assume "uniqueVideos (fst (search_loop env (getDurationRange time) (map searchQuery moods) [] w)) = []"
  then show "fst (fetchVideoSuggestion env time moods w) = Inl (Error no_videos_message)"
    by (simp add: fetchVideoSuggestion_def suggestion_try_def aggregate_cases Let_def catch_no_videos)
qed

lemma sample_search_10:
  "searchVideos (sample_env [sample_item ''v1'' ''PT10M''] reply parse) query ''key'' 15 (Some 480) (Some 1200) ()
     = (Inr [sample_video ''v1'' ''PT10M'' 1200], ())"
  by (simp add: sample_eval sample_item_sel sample_video_data)

lemma failing_search:
  "searchVideos failing_search_env query ''key'' 15 lo hi ()
     = (Inl (Error ''Failed to fetch''), ())"
  by (simp add: failing_search_env_def sample_env_def searchVideos_def rethrow_search_def)

lemma searchQuery_Calm: "searchQuery (utf16 ''Calm'') = utf16 ''Calm''"
  by (simp add: searchQuery_def trim_units_def replace_all_empty_def is_word_unit_def
      is_space_unit_def utf16_def)

theorem aggregate_no_candidates_witness:
  "fst (aggregate failing_search_env 10 [utf16 ''Calm''] ()) = Inl (Error no_videos_message)
   \<and> fst (fetchVideoSuggestion failing_search_env 10 [utf16 ''Calm''] ()) = Inl (Error no_videos_message)
   \<and> uniqueVideos [sample_video ''v1'' ''PT10M'' 1200] \<noteq> []
   \<and> fst (aggregate (sample_env [sample_item ''v1'' ''PT10M''] (GenResponse None) (\<lambda>s. None)) 10 [utf16 ''Calm''] ())
       = Inr (uniqueVideos [sample_video ''v1'' ''PT10M'' 1200])
   \<and> search_loop failing_search_env (getDurationRange 10) [utf16 ''Calm'', utf16 ''Cosy''] [] ()
       = search_loop failing_search_env (getDurationRange 10) [utf16 ''Cosy''] [] ()"
proof -
  let ?E = "sample_env [sample_item ''v1'' ''PT10M''] (GenResponse None) (\<lambda>s. None)"
  let ?V = "sample_video ''v1'' ''PT10M'' 1200"
  have key: "youtube_api_key failing_search_env = ''key''" "youtube_api_key ?E = ''key''"
    by (simp_all add: failing_search_env_def sample_env_def)
  have q: "map searchQuery [utf16 ''Calm''] = [utf16 ''Calm'']"
    by (simp add: searchQuery_Calm)
  have l1: "fst (search_loop failing_search_env (getDurationRange 10) (map searchQuery [utf16 ''Calm'']) [] ()) = []"
    unfolding q by (simp add: key failing_search)
  have l2: "fst (search_loop ?E (getDurationRange 10) (map searchQuery [utf16 ''Calm'']) [] ()) = [?V]"
    unfolding q range10 by (simp add: key sample_search_10)
  have ne: "uniqueVideos [?V] \<noteq> []" by (simp add: uniqueVideos_empty_iff)
  have u1: "uniqueVideos (fst (search_loop failing_search_env (getDurationRange 10) (map searchQuery [utf16 ''Calm'']) [] ())) = []"
    unfolding l1 by (simp add: uniqueVideos_empty_iff)
  note A = aggregate_no_candidates [where env = failing_search_env and time = 10 and moods = "[utf16 ''Calm'']"
      and w = "()" and q = "utf16 ''Calm''" and r = "getDurationRange 10" and ?w0.0 = "()"
      and e' = "Error ''Failed to fetch''" and ?w1.0 = "()" and qs = "[utf16 ''Cosy'']" and acc = "[]"]
  note B = aggregate_no_candidates [where env = ?E and time = 10 and moods = "[utf16 ''Calm'']"
      and w = "()" and q = "utf16 ''Calm''" and r = "getDurationRange 10" and ?w0.0 = "()"
      and e' = "Error ''Failed to fetch''" and ?w1.0 = "()" and qs = "[utf16 ''Cosy'']" and acc = "[]"]
  have a1: "fst (aggregate failing_search_env 10 [utf16 ''Calm''] ()) = Inl (Error no_videos_message)"
    using A u1 by blast
  have a2: "fst (fetchVideoSuggestion failing_search_env 10 [utf16 ''Calm''] ()) = Inl (Error no_videos_message)"
    using A u1 by blast
  have a3: "search_loop failing_search_env (getDurationRange 10) [utf16 ''Calm'', utf16 ''Cosy''] [] ()
       = search_loop failing_search_env (getDurationRange 10) [utf16 ''Cosy''] [] ()"
    using A failing_search [of "utf16 ''Calm''" "Some (min_range (getDurationRange 10))" "Some (max_range (getDurationRange 10))"]
    unfolding key by blast
  have b1: "fst (aggregate ?E 10 [utf16 ''Calm''] ()) = Inr (uniqueVideos [?V])"
    using B ne unfolding l2 by blast
  show ?thesis by (intro conjI) (rule a1 a2 ne b1 a3)+
qed

subsection \<open>Reconciliation and assembly\<close>




lemma assemble_fallback:
  assumes "candidates \<noteq> []" "member reply ''selectedVideoId'' = Some sel" "truthy (Some sel)"
    "\<not> conversion_throws sel" "\<forall>v \<in> set candidates. sel \<noteq> JString (videoId v)"
  shows "assemble time candidates reply = Inr (fallback_suggestion time (hd candidates) reply)"
proof -
  from assms(2) have nn: "reply \<noteq> JNull" by auto
  from assms(2,5) have "find (\<lambda>v. Some (JString (videoId v)) = member reply ''selectedVideoId'') candidates = None"
    by (auto simp: find_None_iff)
  with assms(1-4) nn show ?thesis
    unfolding assemble_def fallback_suggestion_def
    by (cases candidates; cases "member reply ''tags''"; cases "member reply ''promotionalSummary''")
       simp_all
qed

lemma assemble_no_selection:
  "reply \<noteq> JNull \<Longrightarrow> \<not> truthy (member reply ''selectedVideoId'') \<Longrightarrow>
   assemble time candidates reply = Inl (Error no_selection_message)"
  by (simp add: assemble_def)



lemma suggestion_try_after_reply:
  assumes "aggregate env time moods w = (Inr candidates, w1)"
    "generateContent env (selectionPrompt time moods candidates) w1 = (GenResponse (Some jsonText), w2)"
  shows "suggestion_try env time moods w =
     (case JSON_parse env (trim jsonText) of
        None \<Rightarrow> (Inl (Error invalid_response_message), w2)
      | Some selectionData \<Rightarrow> (assemble time candidates selectionData, w2))"
  using assms by (simp add: suggestion_try_def)







subsection \<open>A run of the pipeline\<close>

lemma uniqueVideos_single: "uniqueVideos [v] = [v]"
  by (simp add: uniqueVideos_def new_Map_def map_values_def)

lemma sample_aggregate:
  "aggregate (sample_env [sample_item ''v1'' ''PT10M''] reply parse) 10 [utf16 ''Calm''] ()
     = (Inr [sample_video ''v1'' ''PT10M'' 1200], ())"
proof -
  let ?E = "sample_env [sample_item ''v1'' ''PT10M''] reply parse"
  have key: "youtube_api_key ?E = ''key''" by (simp add: sample_env_def)
  show ?thesis
    by (simp add: aggregate_cases searchQuery_Calm range10 key sample_search_10 uniqueVideos_single)
qed

lemma trim_sample_reply: "trim (sample_reply_text vid) = sample_reply_text vid"
  by (simp add: trim_def sample_reply_text_def dq_def is_space_def)






subsection \<open>The reply of the generative model\<close>

lemma fetch_after_reply:
  assumes "aggregate env time moods w = (Inr candidates, w1)"
    "generateContent env (selectionPrompt time moods candidates) w1 = (GenResponse (Some jsonText), w2)"
  shows "fetchVideoSuggestion env time moods w =
     (case JSON_parse env (trim jsonText) of
        None \<Rightarrow> (Inl (Error invalid_response_message), w2)
      | Some reply \<Rightarrow>
          (case assemble time candidates reply of
             Inl e \<Rightarrow> (Inl (catch_suggestion e), w2)
           | Inr s \<Rightarrow> (Inr s, w2)))"
  by (simp add: fetchVideoSuggestion_def suggestion_try_after_reply [OF assms] catch_invalid
      split: option.splits sum.splits)

lemma empty_selection_run:
  "fst (fetchVideoSuggestion empty_selection_env 10 [utf16 ''Calm''] ())
     = Inl (Error no_selection_message)"
proof -
  let ?V = "sample_video ''v1'' ''PT10M'' 1200"
  have a: "aggregate empty_selection_env 10 [utf16 ''Calm''] () = (Inr [?V], ())"
    unfolding empty_selection_env_def by (rule sample_aggregate)
  have g: "generateContent empty_selection_env (selectionPrompt 10 [utf16 ''Calm''] [?V]) ()
             = (GenResponse (Some (sample_reply_text '''')), ())"
    by (simp add: empty_selection_env_def sample_env_def)
  have p: "JSON_parse empty_selection_env (trim (sample_reply_text ''''))
             = Some (JObject [(''selectedVideoId'', JString '''')])"
    unfolding trim_sample_reply
    by (simp add: empty_selection_env_def sample_env_def sample_parse_def)
  show ?thesis
    unfolding fetch_after_reply [OF a g] p
    by (simp add: assemble_no_selection catch_no_selection)
qed

text \<open>
  C5 as stated fails: the empty identity is the identity of no candidate, and the reply
  that selects it is refused, since the validity test accepts only what is truthy.
\<close>

theorem empty_selection_counterexample:
  "aggregate empty_selection_env 10 [utf16 ''Calm''] ()
     = (Inr [sample_video ''v1'' ''PT10M'' 1200], ())
   \<and> JSON_parse empty_selection_env (trim (sample_reply_text ''''))
       = Some (JObject [(''selectedVideoId'', JString '''')])
   \<and> lookup_video '''' [sample_video ''v1'' ''PT10M'' 1200] = None
   \<and> fst (fetchVideoSuggestion empty_selection_env 10 [utf16 ''Calm''] ())
       = Inl (Error no_selection_message)"
proof -
  have a: "aggregate empty_selection_env 10 [utf16 ''Calm''] ()
     = (Inr [sample_video ''v1'' ''PT10M'' 1200], ())"
    unfolding empty_selection_env_def by (rule sample_aggregate)
  have p: "JSON_parse empty_selection_env (trim (sample_reply_text ''''))
             = Some (JObject [(''selectedVideoId'', JString '''')])"
    unfolding trim_sample_reply
    by (simp add: empty_selection_env_def sample_env_def sample_parse_def)
  have l: "lookup_video '''' [sample_video ''v1'' ''PT10M'' 1200] = None"
    by (simp add: lookup_video_def sample_video_def)
  show ?thesis by (intro conjI) (rule a p l empty_selection_run)+
qed

text \<open>
  C5, amended. When the candidate set is not empty and the reply selects an identity
  that the validity test accepts (it is truthy, so not the empty text), that can be
  written as text, and that is the identity of no candidate, the request does not fail:
  the suggestion is built from the first candidate, with the tags and the summary of the
  reply where it has them, with no tags and the summary naming the target where it has
  not.
\<close>

theorem fallback_first_candidate:
  "(candidates \<noteq> [] \<and> member reply ''selectedVideoId'' = Some sel
      \<and> truthy (Some sel) \<and> \<not> conversion_throws sel
      \<and> (\<forall>v \<in> set candidates. sel \<noteq> JString (videoId v))
      \<longrightarrow> assemble time candidates reply = Inr (fallback_suggestion time (hd candidates) reply))
   \<and> (aggregate env time moods w = (Inr candidates, w1)
      \<and> generateContent env (selectionPrompt time moods candidates) w1 = (GenResponse (Some jsonText), w2)
      \<and> JSON_parse env (trim jsonText) = Some reply
      \<and> member reply ''selectedVideoId'' = Some sel
      \<and> truthy (Some sel) \<and> \<not> conversion_throws sel
      \<and> (\<forall>v \<in> set candidates. sel \<noteq> JString (videoId v))
      \<longrightarrow> fetchVideoSuggestion env time moods w
            = (Inr (fallback_suggestion time (hd candidates) reply), w2))"
proof (intro conjI impI)
  assume "candidates \<noteq> [] \<and> member reply ''selectedVideoId'' = Some sel
      \<and> truthy (Some sel) \<and> \<not> conversion_throws sel
      \<and> (\<forall>v \<in> set candidates. sel \<noteq> JString (videoId v))"
  then show "assemble time candidates reply = Inr (fallback_suggestion time (hd candidates) reply)"
    by (simp add: assemble_fallback)
next
  assume h: "aggregate env time moods w = (Inr candidates, w1)
      \<and> generateContent env (selectionPrompt time moods candidates) w1 = (GenResponse (Some jsonText), w2)
      \<and> JSON_parse env (trim jsonText) = Some reply
      \<and> member reply ''selectedVideoId'' = Some sel
      \<and> truthy (Some sel) \<and> \<not> conversion_throws sel
      \<and> (\<forall>v \<in> set candidates. sel \<noteq> JString (videoId v))"
  then have a: "aggregate env time moods w = (Inr candidates, w1)"
    and g: "generateContent env (selectionPrompt time moods candidates) w1 = (GenResponse (Some jsonText), w2)"
    and p: "JSON_parse env (trim jsonText) = Some reply"
    and m: "member reply ''selectedVideoId'' = Some sel"
    and t: "truthy (Some sel)" and c: "\<not> conversion_throws sel"
    and n: "\<forall>v \<in> set candidates. sel \<noteq> JString (videoId v)"
    by simp_all
  from a have ne: "candidates \<noteq> []" by (rule aggregate_Inr(1))
  have "assemble time candidates reply = Inr (fallback_suggestion time (hd candidates) reply)"
    using ne m t c n by (rule assemble_fallback)
  with p show "fetchVideoSuggestion env time moods w
            = (Inr (fallback_suggestion time (hd candidates) reply), w2)"
    unfolding fetch_after_reply [OF a g] by simp
qed

theorem fallback_first_candidate_witness:
  "assemble 10 [sample_video ''a'' ''PT10M'' 1, sample_video ''b'' ''PT12M'' 2]
       (JObject [(''selectedVideoId'', JString ''zz''),
                 (''tags'', JArray [JString ''rain'', JString ''calm'', JString ''sleep''])])
     = Inr (fallback_suggestion 10 (sample_video ''a'' ''PT10M'' 1)
              (JObject [(''selectedVideoId'', JString ''zz''),
                        (''tags'', JArray [JString ''rain'', JString ''calm'', JString ''sleep''])]))
   \<and> tags (fallback_suggestion 10 (sample_video ''a'' ''PT10M'' 1)
              (JObject [(''selectedVideoId'', JString ''zz''),
                        (''tags'', JArray [JString ''rain'', JString ''calm'', JString ''sleep''])]))
       = JArray [JString ''rain'', JString ''calm'', JString ''sleep'']
   \<and> promotionalSummary (fallback_suggestion 10 (sample_video ''a'' ''PT10M'' 1)
              (JObject [(''selectedVideoId'', JString ''zz''),
                        (''tags'', JArray [JString ''rain'', JString ''calm'', JString ''sleep''])]))
       = Some (JString ''A perfect 10-minute video for your current mood.'')
   \<and> fetchVideoSuggestion
         (sample_env [sample_item ''v1'' ''PT10M''] (GenResponse (Some (sample_reply_text ''zz'')))
            (sample_parse ''zz'')) 10 [utf16 ''Calm''] ()
       = (Inr (fallback_suggestion 10 (sample_video ''v1'' ''PT10M'' 1200)
                 (JObject [(''selectedVideoId'', JString ''zz'')])), ())"
proof -
  let ?A = "sample_video ''a'' ''PT10M'' 1" and ?B = "sample_video ''b'' ''PT12M'' 2"
  let ?R = "JObject [(''selectedVideoId'', JString ''zz''),
                     (''tags'', JArray [JString ''rain'', JString ''calm'', JString ''sleep''])]"
  let ?E = "sample_env [sample_item ''v1'' ''PT10M''] (GenResponse (Some (sample_reply_text ''zz'')))
              (sample_parse ''zz'')"
  let ?V = "sample_video ''v1'' ''PT10M'' 1200"
  let ?R' = "JObject [(''selectedVideoId'', JString ''zz'')]"
  have h1: "[?A, ?B] \<noteq> [] \<and> member ?R ''selectedVideoId'' = Some (JString ''zz'')
      \<and> truthy (Some (JString ''zz'')) \<and> \<not> conversion_throws (JString ''zz'')
      \<and> (\<forall>v \<in> set [?A, ?B]. JString ''zz'' \<noteq> JString (videoId v))"
    by (simp add: sample_video_def)
  note T1 = fallback_first_candidate [where candidates = "[?A, ?B]" and reply = ?R and time = 10
        and sel = "JString ''zz''"
        and env = ?E and moods = "[]" and w = "()" and ?w1.0 = "()" and ?w2.0 = "()"
        and jsonText = "[]"]
  have c1: "assemble 10 [?A, ?B] ?R = Inr (fallback_suggestion 10 ?A ?R)"
    using conjunct1 [OF T1] h1 by simp
  have c2: "tags (fallback_suggestion 10 ?A ?R) = JArray [JString ''rain'', JString ''calm'', JString ''sleep'']"
    by (simp add: fallback_suggestion_def)
  have c3: "promotionalSummary (fallback_suggestion 10 ?A ?R)
              = Some (JString ''A perfect 10-minute video for your current mood.'')"
    by (simp add: fallback_suggestion_def toString_int_def toString_nat.simps digit_char_def)
  have a: "aggregate ?E 10 [utf16 ''Calm''] () = (Inr [?V], ())" by (rule sample_aggregate)
  have g: "generateContent ?E (selectionPrompt 10 [utf16 ''Calm''] [?V]) ()
            = (GenResponse (Some (sample_reply_text ''zz'')), ())"
    by (simp add: sample_env_def)
  have p: "JSON_parse ?E (trim (sample_reply_text ''zz'')) = Some ?R'"
    unfolding trim_sample_reply by (simp add: sample_env_def sample_parse_def)
  have r: "member ?R' ''selectedVideoId'' = Some (JString ''zz'')
      \<and> truthy (Some (JString ''zz'')) \<and> \<not> conversion_throws (JString ''zz'')
      \<and> (\<forall>v \<in> set [?V]. JString ''zz'' \<noteq> JString (videoId v))"
    by (simp add: sample_video_def)
  note T2 = fallback_first_candidate [where candidates = "[?V]" and reply = ?R' and time = 10
        and sel = "JString ''zz''"
        and env = ?E and moods = "[utf16 ''Calm'']" and w = "()" and ?w1.0 = "()" and ?w2.0 = "()"
        and jsonText = "sample_reply_text ''zz''"]
  have c4: "fetchVideoSuggestion ?E 10 [utf16 ''Calm''] () = (Inr (fallback_suggestion 10 (hd [?V]) ?R'), ())"
    using conjunct2 [OF T2] a g p r by blast
  then have c4': "fetchVideoSuggestion ?E 10 [utf16 ''Calm''] () = (Inr (fallback_suggestion 10 ?V ?R'), ())"
    by simp
  show ?thesis by (intro conjI) (rule c1 c2 c3 c4')+
qed




subsection \<open>The queries of the aggregation stage\<close>

lemma recording_simps:
  "youtube_api_key (recording env) = youtube_api_key env"
  "JSON_parse (recording env) = JSON_parse env"
  "generateContent (recording env) p (w, reqs)
     = (case generateContent env p w of (r, w') \<Rightarrow> (r, (w', reqs)))"
  by (simp_all add: recording_def)

lemma search_loop_recording:
  "search_loop (recording env) r qs acc (w, reqs)
     = (case search_loop env r qs acc w of
          (vs, w') \<Rightarrow>
            (vs, (w', reqs @ map (\<lambda>q. searchUrl q (youtube_api_key env) 15 (Some (max_range r))) qs)))"
proof (induction qs arbitrary: acc w reqs)
  case Nil
  then show ?case by simp
next
  case (Cons q qs)
  then show ?case
    by (simp add: searchVideos_recording recording_simps split: prod.splits sum.splits)
qed

lemma aggregate_recording:
  "aggregate (recording env) time moods (w, reqs)
     = (case aggregate env time moods w of
          (r, w') \<Rightarrow>
            (r, (w', reqs @ map (\<lambda>mood. searchUrl (searchQuery mood) (youtube_api_key env) 15
                                     (Some (max_range (getDurationRange time)))) moods)))"
  by (auto simp: aggregate_def Let_def search_loop_recording comp_def split: prod.splits)

lemma suggestion_try_recording:
  "snd (snd (suggestion_try (recording env) time moods (w, reqs)))
     = reqs @ map (\<lambda>mood. searchUrl (searchQuery mood) (youtube_api_key env) 15
                            (Some (max_range (getDurationRange time)))) moods"
  by (auto simp: suggestion_try_def aggregate_recording recording_simps
      split: prod.splits sum.splits gen_result.splits option.splits)

lemma fetchVideoSuggestion_recording:
  "snd (snd (fetchVideoSuggestion (recording env) time moods (w, reqs)))
     = reqs @ map (\<lambda>mood. searchUrl (searchQuery mood) (youtube_api_key env) 15
                            (Some (max_range (getDurationRange time)))) moods"
proof -
  have "snd (fetchVideoSuggestion (recording env) time moods (w, reqs))
          = snd (suggestion_try (recording env) time moods (w, reqs))"
    by (auto simp: fetchVideoSuggestion_def split: prod.splits sum.splits)
  then show ?thesis by (simp only: suggestion_try_recording)
qed

lemma trim_units_decomp:
  "\<exists>a b. s = a @ trim_units s @ b \<and> list_all is_space_unit a \<and> list_all is_space_unit b"
proof -
  let ?d = "dropWhile is_space_unit s"
  let ?a = "takeWhile is_space_unit s"
  let ?b = "rev (takeWhile is_space_unit (rev ?d))"
  have "rev ?d = takeWhile is_space_unit (rev ?d) @ dropWhile is_space_unit (rev ?d)"
    by (simp only: takeWhile_dropWhile_id)
  then have "rev (rev ?d) = rev (takeWhile is_space_unit (rev ?d) @ dropWhile is_space_unit (rev ?d))"
    by (rule arg_cong)
  then have d: "?d = trim_units s @ ?b"
    by (simp only: rev_rev_ident rev_append trim_units_def)
  have "s = ?a @ ?d" by (simp only: takeWhile_dropWhile_id)
  with d have "s = ?a @ trim_units s @ ?b" by simp
  moreover have "list_all is_space_unit ?a"
    by (auto simp: list_all_iff dest: set_takeWhileD)
  moreover have "list_all is_space_unit ?b"
    by (auto simp: list_all_iff dest: set_takeWhileD)
  ultimately show ?thesis by blast
qed

lemma trim_units_ends:
  assumes "trim_units s \<noteq> []"
  shows "\<not> is_space_unit (hd (trim_units s))" and "\<not> is_space_unit (last (trim_units s))"
proof -
  let ?d = "dropWhile is_space_unit s"
  let ?r = "dropWhile is_space_unit (rev ?d)"
  from assms have r: "?r \<noteq> []" by (simp add: trim_units_def)
  then have "\<not> is_space_unit (hd ?r)" by (rule hd_dropWhile)
  with r show "\<not> is_space_unit (last (trim_units s))"
    by (simp add: trim_units_def last_rev)
  have d: "?d \<noteq> []"
  proof
    assume "?d = []"
    then have "?r = []" by (simp only: rev.simps dropWhile.simps)
    with r show False by blast
  qed
  then have nd: "\<not> is_space_unit (hd ?d)" by (rule hd_dropWhile)
  have "rev ?d = takeWhile is_space_unit (rev ?d) @ ?r"
    by (simp only: takeWhile_dropWhile_id)
  then have "rev (rev ?d) = rev (takeWhile is_space_unit (rev ?d) @ ?r)"
    by (rule arg_cong)
  then have "?d = trim_units s @ rev (takeWhile is_space_unit (rev ?d))"
    by (simp only: rev_rev_ident rev_append trim_units_def)
  then have "hd ?d = hd (trim_units s @ rev (takeWhile is_space_unit (rev ?d)))"
    by (rule arg_cong)
  with assms have "hd ?d = hd (trim_units s)" by simp
  with nd show "\<not> is_space_unit (hd (trim_units s))" by simp
qed

lemma is_word_unit_alnum: "is_word_unit c \<longleftrightarrow> is_alnum_unit c \<or> c = 95"
proof -
  have "is_alnum_unit c \<longleftrightarrow> (48 \<le> c \<and> c \<le> 57) \<or> (65 \<le> c \<and> c \<le> 90) \<or> (97 \<le> c \<and> c \<le> 122)"
    unfolding is_alnum_unit_def by simp arith
  then show ?thesis unfolding is_word_unit_def by blast
qed

lemma sample_env_key: "youtube_api_key (sample_env detailsItems reply parse) = ''key''"
  by (simp add: sample_env_def)

lemma searchQuery_need_a_laugh: "searchQuery need_a_laugh = utf16 ''Need a laugh''"
  by (simp add: searchQuery_def need_a_laugh_def trim_units_def replace_all_empty_def
      is_word_unit_def is_space_unit_def utf16_def)

lemma searchQuery_lo_fi: "searchQuery (utf16 ''lo_fi'') = utf16 ''lo_fi''"
  by (simp add: searchQuery_def trim_units_def replace_all_empty_def
      is_word_unit_def is_space_unit_def utf16_def)

text \<open>
  C9 as stated fails: the code also trims the white space at both ends of what is left,
  and it keeps the underscore, which is a word character of the pattern. For the label
  \<^verbatim>\<open>Need a laugh\<close> with its pictograph the space before the pictograph is dropped from
  the query; for \<^verbatim>\<open>lo_fi\<close> the underscore stays.
\<close>

theorem searchQuery_counterexample:
  "map sr_q (snd (snd (fetchVideoSuggestion (recording sample_run_env) 10
                         [need_a_laugh, utf16 ''lo_fi''] ((), []))))
     = [utf16 ''Need a laugh'', utf16 ''lo_fi'']
   \<and> stripped_query need_a_laugh = utf16 ''Need a laugh ''
   \<and> stripped_query (utf16 ''lo_fi'') = utf16 ''lofi''
   \<and> utf16 ''Need a laugh'' \<noteq> utf16 ''Need a laugh ''
   \<and> utf16 ''lo_fi'' \<noteq> utf16 ''lofi''"
proof -
  have r: "map sr_q (snd (snd (fetchVideoSuggestion (recording sample_run_env) 10
                         [need_a_laugh, utf16 ''lo_fi''] ((), []))))
     = [utf16 ''Need a laugh'', utf16 ''lo_fi'']"
    by (simp add: fetchVideoSuggestion_recording searchQuery_need_a_laugh searchQuery_lo_fi
        searchUrl_def)
  have s1: "stripped_query need_a_laugh = utf16 ''Need a laugh ''"
    by (simp add: stripped_query_def need_a_laugh_def is_alnum_unit_def utf16_def)
  have s2: "stripped_query (utf16 ''lo_fi'') = utf16 ''lofi''"
    by (simp add: stripped_query_def is_alnum_unit_def utf16_def)
  have d1: "utf16 ''Need a laugh'' \<noteq> utf16 ''Need a laugh ''" by (simp add: utf16_def)
  have d2: "utf16 ''lo_fi'' \<noteq> utf16 ''lofi''" by (simp add: utf16_def)
  show ?thesis by (intro conjI) (rule r s1 s2 d1 d2)+
qed

text \<open>
  C9, amended. The query for a mood label is the label without its characters that are
  neither letters, digits, underscores nor white space, and without the white space at
  the two ends of what is left; it is the label itself when nothing is left. The
  pipeline issues one search request per mood, in the order of the moods, each with
  this query, for \<open>min (2 * 15) 50\<close> hits and with the duration class of the upper bound
  of the band; every search filters with both bounds of the band, so every merged
  result whose duration text reads \<^verbatim>\<open>PT#H#M#S\<close> has its seconds within them. For targets
  from 0 to 120 the band is that of the formula.
\<close>

theorem searchQuery_issued:
  "(\<exists>a b q. filter (\<lambda>c. is_alnum_unit c \<or> c = 95 \<or> is_space_unit c) mood = a @ q @ b
        \<and> list_all is_space_unit a \<and> list_all is_space_unit b
        \<and> (q = [] \<or> \<not> is_space_unit (hd q) \<and> \<not> is_space_unit (last q))
        \<and> searchQuery mood = (if q = [] then mood else q))
   \<and> snd (snd (fetchVideoSuggestion (recording env) time moods (w, [])))
       = map (\<lambda>mood. searchUrl (searchQuery mood) (youtube_api_key env) 15
                         (Some (max_range (getDurationRange time)))) moods
   \<and> sr_maxResults (searchUrl (searchQuery mood) (youtube_api_key env) 15
                       (Some (max_range (getDurationRange time)))) = 30
   \<and> (v \<in> set (fst (search_loop env (getDurationRange time) (map searchQuery moods) [] w))
        \<and> duration v = pre @ iso_duration h m s @ junk
        \<and> (\<forall>p q. pre \<noteq> p @ ''PT'' @ q) \<and> (junk = [] \<or> \<not> is_digit (hd junk))
        \<and> wf_component h \<and> wf_component m \<and> wf_component s
        \<and> duration_seconds h m s < 2 ^ 53 \<longrightarrow>
        min_range (getDurationRange time) \<le> int (duration_seconds h m s)
        \<and> int (duration_seconds h m s) \<le> max_range (getDurationRange time))
   \<and> (0 \<le> time \<and> time \<le> 120 \<longrightarrow> getDurationRange time = band_formula time)"
proof (intro conjI impI)
  let ?kept = "filter (\<lambda>c. is_alnum_unit c \<or> c = 95 \<or> is_space_unit c) mood"
  have k: "replace_all_empty (\<lambda>c. \<not> (is_word_unit c \<or> is_space_unit c)) mood = ?kept"
    by (simp add: replace_all_empty_def is_word_unit_alnum disj_assoc)
  from trim_units_decomp [of ?kept] obtain a b where
    d: "?kept = a @ trim_units ?kept @ b" "list_all is_space_unit a" "list_all is_space_unit b"
    by blast
  have e: "trim_units ?kept = [] \<or> \<not> is_space_unit (hd (trim_units ?kept))
             \<and> \<not> is_space_unit (last (trim_units ?kept))"
    using trim_units_ends [of ?kept] by blast
  have q: "searchQuery mood = (if trim_units ?kept = [] then mood else trim_units ?kept)"
    unfolding searchQuery_def Let_def k by (rule refl)
  from d e q
  show "\<exists>a b q. ?kept = a @ q @ b
        \<and> list_all is_space_unit a \<and> list_all is_space_unit b
        \<and> (q = [] \<or> \<not> is_space_unit (hd q) \<and> \<not> is_space_unit (last q))
        \<and> searchQuery mood = (if q = [] then mood else q)"
    by blast
next
  show "snd (snd (fetchVideoSuggestion (recording env) time moods (w, [])))
       = map (\<lambda>mood. searchUrl (searchQuery mood) (youtube_api_key env) 15
                         (Some (max_range (getDurationRange time)))) moods"
    by (simp add: fetchVideoSuggestion_recording)
next
  show "sr_maxResults (searchUrl (searchQuery mood) (youtube_api_key env) 15
                       (Some (max_range (getDurationRange time)))) = 30"
    by (simp add: searchUrl_def)
next
  assume a: "v \<in> set (fst (search_loop env (getDurationRange time) (map searchQuery moods) [] w))
        \<and> duration v = pre @ iso_duration h m s @ junk
        \<and> (\<forall>p q. pre \<noteq> p @ ''PT'' @ q) \<and> (junk = [] \<or> \<not> is_digit (hd junk))
        \<and> wf_component h \<and> wf_component m \<and> wf_component s
        \<and> duration_seconds h m s < 2 ^ 53"
  with search_loop_in_band [of env "getDurationRange time" "map searchQuery moods" w]
  have "in_band (getDurationRange time) v" by blast
  with a show "min_range (getDurationRange time) \<le> int (duration_seconds h m s)"
    using in_band_seconds(1) [of "getDurationRange time" v pre h m s junk] by blast
next
  assume a: "v \<in> set (fst (search_loop env (getDurationRange time) (map searchQuery moods) [] w))
        \<and> duration v = pre @ iso_duration h m s @ junk
        \<and> (\<forall>p q. pre \<noteq> p @ ''PT'' @ q) \<and> (junk = [] \<or> \<not> is_digit (hd junk))
        \<and> wf_component h \<and> wf_component m \<and> wf_component s
        \<and> duration_seconds h m s < 2 ^ 53"
  with search_loop_in_band [of env "getDurationRange time" "map searchQuery moods" w]
  have "in_band (getDurationRange time) v" by blast
  with a show "int (duration_seconds h m s) \<le> max_range (getDurationRange time)"
    using in_band_seconds(2) [of "getDurationRange time" v pre h m s junk] by blast
next
  assume "0 \<le> time \<and> time \<le> 120"
  then show "getDurationRange time = band_formula time" by (simp add: getDurationRange_band)
qed

theorem searchQuery_issued_witness:
  "(\<exists>a b q. filter (\<lambda>c. is_alnum_unit c \<or> c = 95 \<or> is_space_unit c) need_a_laugh = a @ q @ b
        \<and> list_all is_space_unit a \<and> list_all is_space_unit b
        \<and> (q = [] \<or> \<not> is_space_unit (hd q) \<and> \<not> is_space_unit (last q))
        \<and> searchQuery need_a_laugh = (if q = [] then need_a_laugh else q))
   \<and> snd (snd (fetchVideoSuggestion (recording sample_run_env) 10 [need_a_laugh, utf16 ''Calm''] ((), [])))
       = [searchUrl (utf16 ''Need a laugh'') ''key'' 15 (Some 1200),
          searchUrl (utf16 ''Calm'') ''key'' 15 (Some 1200)]
   \<and> sample_video ''v1'' ''PT10M'' 1200
        \<in> set (fst (search_loop sample_run_env (getDurationRange 10) (map searchQuery [utf16 ''Calm'']) [] ()))
   \<and> (480 :: int) \<le> int (duration_seconds None (Some ''10'') None)
   \<and> int (duration_seconds None (Some ''10'') None) \<le> (1200 :: int)
   \<and> (0 :: int) \<le> 10 \<and> (10 :: int) \<le> 120
   \<and> getDurationRange 10 = band_formula 10"
proof -
  let ?V = "sample_video ''v1'' ''PT10M'' 1200"
  note A = searchQuery_issued [where mood = need_a_laugh and env = sample_run_env and time = 10
      and moods = "[need_a_laugh, utf16 ''Calm'']" and w = "()" and v = ?V and pre = "[]"
      and h = None and m = "Some ''10''" and s = None and junk = "[]"]
  note B = searchQuery_issued [where mood = need_a_laugh and env = sample_run_env and time = 10
      and moods = "[utf16 ''Calm'']" and w = "()" and v = ?V and pre = "[]"
      and h = None and m = "Some ''10''" and s = None and junk = "[]"]
  have key: "youtube_api_key sample_run_env = ''key''"
    by (simp add: sample_run_env_def sample_env_def)
  have c1: "\<exists>a b q. filter (\<lambda>c. is_alnum_unit c \<or> c = 95 \<or> is_space_unit c) need_a_laugh = a @ q @ b
        \<and> list_all is_space_unit a \<and> list_all is_space_unit b
        \<and> (q = [] \<or> \<not> is_space_unit (hd q) \<and> \<not> is_space_unit (last q))
        \<and> searchQuery need_a_laugh = (if q = [] then need_a_laugh else q)"
    by (rule conjunct1 [OF A])
  have "snd (snd (fetchVideoSuggestion (recording sample_run_env) 10 [need_a_laugh, utf16 ''Calm''] ((), [])))
       = map (\<lambda>mood. searchUrl (searchQuery mood) (youtube_api_key sample_run_env) 15
                         (Some (max_range (getDurationRange 10)))) [need_a_laugh, utf16 ''Calm'']"
    by (rule conjunct1 [OF conjunct2 [OF A]])
  then have c2: "snd (snd (fetchVideoSuggestion (recording sample_run_env) 10 [need_a_laugh, utf16 ''Calm''] ((), [])))
       = [searchUrl (utf16 ''Need a laugh'') ''key'' 15 (Some 1200),
          searchUrl (utf16 ''Calm'') ''key'' 15 (Some 1200)]"
    by (simp add: key range10 searchQuery_need_a_laugh searchQuery_Calm)
  have l: "fst (search_loop sample_run_env (getDurationRange 10) (map searchQuery [utf16 ''Calm'']) [] ()) = [?V]"
    unfolding range10 sample_run_env_def
    by (simp add: searchQuery_Calm sample_search_10 sample_env_key)
  have c3: "?V \<in> set (fst (search_loop sample_run_env (getDurationRange 10) (map searchQuery [utf16 ''Calm'']) [] ()))"
    unfolding l by simp
  have pin: "duration ?V = [] @ iso_duration None (Some ''10'') None @ []
        \<and> (\<forall>p q. [] \<noteq> p @ ''PT'' @ q) \<and> ([] = [] \<or> \<not> is_digit (hd []))
        \<and> wf_component None \<and> wf_component (Some ''10'') \<and> wf_component None
        \<and> duration_seconds None (Some ''10'') None < 2 ^ 53"
    by (simp add: sample_video_def iso_duration_def render_component_def wf_component_def
        wf_digits_def is_digit_def duration_seconds_def component_value_def parseInt_digits_def
        digit_val_def)
  have b: "min_range (getDurationRange 10) \<le> int (duration_seconds None (Some ''10'') None)
        \<and> int (duration_seconds None (Some ''10'') None) \<le> max_range (getDurationRange 10)"
    using B c3 pin by blast
  then have c4: "(480 :: int) \<le> int (duration_seconds None (Some ''10'') None)"
    and c5: "int (duration_seconds None (Some ''10'') None) \<le> (1200 :: int)"
    by (simp_all add: range10)
  have t: "(0 :: int) \<le> 10" "(10 :: int) \<le> 120" by simp_all
  have c6: "getDurationRange 10 = band_formula 10" using B t by blast
  show ?thesis by (intro conjI) (rule c1 c2 c3 c4 c5 t c6)+
qed


end
